theory Spec2Isabelle
  imports Main "HOL-Library.AList" "HOL-Library.Char_ord" "HOL-Library.List_Lexorder"
begin

section \<open>The store\<close>

text \<open>
  WeFriend keeps all of its data in one Firebase Realtime Database and every operation of
  \<^verbatim>\<open>friends.js\<close>, \<^verbatim>\<open>chat.js\<close>, \<^verbatim>\<open>posts.js\<close> and \<^verbatim>\<open>notifications.js\<close> is a sequence of
  \<^verbatim>\<open>get\<close>, \<^verbatim>\<open>set\<close>, \<^verbatim>\<open>update\<close> and \<^verbatim>\<open>remove\<close> calls on paths of that tree.
  The tree is modelled as a record with one field per top-level path. A node whose children
  the code enumerates, or whose whole value it can read, is an association list (kept in
  the order of the writes, each key at most once); the snapshot of such a node lists the children in ascending key order, which
  is \<open>children\<close> below. A node that is only addressed by key is a map.

  Conventions of the embedding:
  \<^item> the identifiers the store and the SDK hand to the code (user ids, push keys, the keys
    of stored children) are Firebase keys: non-empty strings without a slash and without
    the characters a path may not hold, so that each segment of a path addresses exactly
    one child, and keys compare as strings, character code by character code (user ids and
    push keys are not decimal numbers, which Firebase and JavaScript would order by value).
    A username passed to \<open>sendFriendRequest\<close> is text typed by the user and is any string;
    what the path built from it addresses is modelled in full below;
  \<^item> \<^verbatim>\<open>chat.js\<close> and \<^verbatim>\<open>posts.js\<close> import \<^verbatim>\<open>getUserProfile\<close> from \<^verbatim>\<open>friends.js\<close>, which does not
    export it; the name is read as the only \<^verbatim>\<open>getUserProfile\<close> of the repository, the
    one \<^verbatim>\<open>database.js\<close> exports and \<^verbatim>\<open>friends.js\<close> itself imports;
  \<^item> a JavaScript property that may be missing is an \<open>option\<close>;
  \<^item> counters and timestamps are integers;
  \<^item> the values the Firebase SDK and the clock supply to an operation (the signed-in user,
    the key returned by \<^verbatim>\<open>push\<close>, \<^verbatim>\<open>serverTimestamp()\<close>, \<^verbatim>\<open>Date.now()\<close>) are the fields of
    an \<open>env\<close> record passed to the operation;
  \<^item> an operation returns its outcome together with the store it leaves behind, so that the
    writes made before an exception is thrown stay visible;
  \<^item> operations run one at a time (no interleaving of their individual reads and writes).
\<close>

type_synonym uid = string
type_synonym key = string

record profile =
  username :: "string option"
  displayName :: "string option"
  photoURL :: "string option"

record friend_edge =
  addedAt :: int
  status :: string

record friend_request =
  req_from :: uid
  req_to :: uid
  req_timestamp :: int
  req_status :: string

record notification =
  n_type :: string
  n_from :: uid
  n_message :: string
  n_timestamp :: int
  n_chatId :: "string option"
  n_postId :: "string option"
  n_id :: key
  n_read :: bool
  n_createdAt :: int

record message =
  senderId :: uid
  recipientId :: uid
  m_text :: string
  timestamp :: "int option"
  read :: bool

record chat_meta =
  participants :: "uid list"
  cm_lastMessage :: "string \<times> uid \<times> int"
  updatedAt :: int

record user_chat =
  lastMessage :: "string option"
  lastMessageTime :: "int option"
  otherUserId :: "uid option"
  unreadCount :: "int option"

record comment =
  c_authorId :: uid
  c_authorName :: "string option"
  c_authorPhoto :: "string option"
  c_text :: string
  c_timestamp :: int
  c_createdAt :: int

record post =
  authorId :: "uid option"
  authorName :: "string option"
  authorPhoto :: "string option"
  content :: "string option"
  image :: "string option"
  p_timestamp :: "int option"
  likes :: "uid list"
  likesCount :: "int option"
  comments :: "(key \<times> comment) list"
  commentsCount :: "int option"
  createdAt :: "int option"

record db =
  users :: "(uid \<times> profile) list"
  usernames :: "(string \<times> uid) list"
  friends :: "uid \<Rightarrow> (uid \<times> friend_edge) list"
  friendRequests :: "uid \<Rightarrow> (uid \<times> friend_request) list"
  messages :: "string \<Rightarrow> (key \<times> message) list"
  chats :: "string \<rightharpoonup> chat_meta"
  userChats :: "uid \<Rightarrow> string \<rightharpoonup> user_chat"
  posts :: "key \<rightharpoonup> post"
  userPosts :: "uid \<Rightarrow> key list"
  notifications :: "uid \<Rightarrow> (key \<times> notification) list"

record env =
  currentUser :: "uid option"
  pushKey :: key
  notifKey :: key
  serverTime :: int
  clientTime :: int

text \<open>
  The errors the operations throw. Each constructor stands for one \<^verbatim>\<open>throw new Error(...)\<close>
  of the source, named after the specification's error for it:
  \<open>Unauthenticated\<close> is 'User not authenticated', \<open>NotFound\<close> is 'User not found',
  'Post not found' and 'Comment not found', \<open>SelfReference\<close> is 'Cannot send friend request
  to yourself', \<open>AlreadyFriends\<close> is 'Already friends with this user', \<open>DuplicateRequest\<close> is
  'Friend request already sent', \<open>ReciprocalPending\<close> is 'This user has already sent you a
  friend request', \<open>NotFriends\<close> is 'Can only send messages to friends', \<open>EmptyComment\<close> is
  'Comment cannot be empty', \<open>EmptyPost\<close> is 'Post must have content or an image',
  \<open>Forbidden\<close> is 'Can only delete your own posts' and 'Can only delete your own comments'.
  \<open>TypeError\<close> is the exception JavaScript raises when a property of \<^verbatim>\<open>null\<close> is read;
  \<open>InvalidData\<close> is the error of the SDK's \<^verbatim>\<open>set\<close> when the value holds an \<^verbatim>\<open>undefined\<close>;
  \<open>InvalidPath\<close> is the error of the SDK's \<^verbatim>\<open>ref\<close> when the path is not one it accepts.
  No statement of the source throws an error for a blank message text; \<open>EmptyMessage\<close> is
  the specification's name for it and no operation below returns it.
\<close>

datatype error =
    Unauthenticated | NotFound | SelfReference | AlreadyFriends | DuplicateRequest
  | ReciprocalPending | NotFriends | EmptyMessage | EmptyComment | EmptyPost | Forbidden
  | TypeError | InvalidData | InvalidPath

definition children :: "(string \<times> 'a) list \<Rightarrow> (string \<times> 'a) list" where
  "children xs = sort_key fst xs"

definition exists_child :: "('k \<times> 'a) list \<Rightarrow> 'k \<Rightarrow> bool" where
  "exists_child xs k = (map_of xs k \<noteq> None)"

text \<open>\<^verbatim>\<open>`${x}`\<close> of a property that may be missing.\<close>

definition js_str :: "string option \<Rightarrow> string" where
  "js_str x = (case x of None \<Rightarrow> ''undefined'' | Some v \<Rightarrow> v)"

text \<open>\<^verbatim>\<open>x || 0\<close> of a numeric property that may be missing.\<close>

definition or0 :: "int option \<Rightarrow> int" where
  "or0 x = (case x of None \<Rightarrow> 0 | Some n \<Rightarrow> n)"

definition empty_db :: db where
  "empty_db = \<lparr> users = [], usernames = [], friends = (\<lambda>_. []),
     friendRequests = (\<lambda>_. []), messages = (\<lambda>_. []), chats = Map.empty,
     userChats = (\<lambda>_. Map.empty), posts = Map.empty, userPosts = (\<lambda>_. []),
     notifications = (\<lambda>_. []) \<rparr>"

section \<open>Profiles and notifications\<close>

definition getUserProfile :: "db \<Rightarrow> uid \<Rightarrow> profile option" where
  "getUserProfile s u = map_of (users s) u"

text \<open>
  \<^verbatim>\<open>ref(database, path)\<close> throws unless the path is one the SDK accepts: ``Paths must
  be non-empty strings and can't contain ".", "#", "$", "[", or "]"'', and no ASCII control
  character either. The path is then cut at its slashes and the empty pieces are dropped;
  the pieces that remain are the keys followed from the root.
\<close>

definition invalid_path_char :: "char \<Rightarrow> bool" where
  "invalid_path_char c =
     (c \<in> set ''[].#$'' \<or> (of_char c :: nat) < 32 \<or> (of_char c :: nat) = 127)"

definition valid_path :: "string \<Rightarrow> bool" where
  "valid_path p = (p \<noteq> [] \<and> list_all (\<lambda>c. \<not> invalid_path_char c) p)"

fun split_path :: "string \<Rightarrow> string \<Rightarrow> string list" where
  "split_path piece [] = (if piece = [] then [] else [piece])"
| "split_path piece (c # cs) =
     (if c = CHR ''/'' then (if piece = [] then [] else [piece]) @ split_path [] cs
      else split_path (piece @ [c]) cs)"

definition segments :: "string \<Rightarrow> string list" where
  "segments p = split_path [] p"

text \<open>
  \<^verbatim>\<open>`${snapshot.val()}`\<close> for the snapshot of a node whose children are strings. The value
  of such a node is an object, which prints as \<^verbatim>\<open>[object Object]\<close>; but when every key is
  a decimal number without leading zero and the largest is less than twice the number of
  keys, the SDK exports an array, which prints as its elements joined by commas, a missing
  index printing as nothing.
\<close>

definition is_index_key :: "string \<Rightarrow> bool" where
  "is_index_key k =
     (k = ''0'' \<or> (k \<noteq> [] \<and> hd k \<noteq> CHR ''0''
                  \<and> list_all (\<lambda>c. CHR ''0'' \<le> c \<and> c \<le> CHR ''9'') k))"

definition key_number :: "string \<Rightarrow> int" where
  "key_number k = foldl (\<lambda>n c. 10 * n + (of_char c - 48)) 0 k"

fun join_commas :: "string list \<Rightarrow> string" where
  "join_commas [] = []"
| "join_commas [x] = x"
| "join_commas (x # y # rest) = x @ '','' @ join_commas (y # rest)"

definition node_string :: "(string \<times> string) list \<Rightarrow> string" where
  "node_string kvs =
     (if list_all (is_index_key \<circ> fst) kvs
      then (let maxKey = foldr max (map (key_number \<circ> fst) kvs) 0 in
            if maxKey < 2 * int (length kvs)
            then join_commas
                   (map (\<lambda>i. case map_of (map (\<lambda>(k, v). (key_number k, v)) kvs) (int i) of
                                None \<Rightarrow> [] | Some v \<Rightarrow> v)
                        [0 ..< nat (maxKey + 1)])
            else ''[object Object]'')
      else ''[object Object]'')"

text \<open>
  \<open>getUserByUsername\<close> reads \<^verbatim>\<open>usernames/${username}\<close> and, when the snapshot exists,
  hands its value to \<^verbatim>\<open>getUserProfile\<close>, which reads \<^verbatim>\<open>users/${uid}\<close>; an exception of
  either \<^verbatim>\<open>ref\<close> is thrown on. The username is not checked before it is put into the path:
  \<^item> with a character the SDK refuses, \<^verbatim>\<open>ref\<close> throws;
  \<^item> with exactly one non-empty piece between slashes, that piece is the key looked up in
    the index;
  \<^item> with more pieces, the path leads below a string, where nothing is;
  \<^item> empty or made of slashes only, the path is \<^verbatim>\<open>usernames/\<close>, which the SDK accepts and
    which addresses the index itself: when the index is not empty its whole value is
    handed on as if it were a user id.
  The value found in the index is a user id; what the whole index prints as has no
  slash either, so either is the one key looked up below \<^verbatim>\<open>users\<close>.
\<close>

definition profile_of_value :: "db \<Rightarrow> string \<Rightarrow> error + profile option" where
  "profile_of_value s v =
     (if \<not> valid_path (''users/'' @ v) then Inl InvalidPath else Inr (getUserProfile s v))"

definition getUserByUsername :: "db \<Rightarrow> string \<Rightarrow> error + profile option" where
  "getUserByUsername s name =
     (if \<not> valid_path (''usernames/'' @ name) then Inl InvalidPath
      else
        (case segments name of
           [] \<Rightarrow> if usernames s = [] then Inr None
                 else profile_of_value s (node_string (usernames s))
         | [k] \<Rightarrow> (case map_of (usernames s) k of
                      None \<Rightarrow> Inr None
                    | Some u \<Rightarrow> profile_of_value s u)
         | k # k' # ks \<Rightarrow> Inr None))"

text \<open>
  \<open>addNotification\<close> stores the data it is given under a pushed key of
  \<^verbatim>\<open>notifications/{userId}\<close>, adding the key, \<^verbatim>\<open>read: false\<close> and \<^verbatim>\<open>createdAt\<close>.
\<close>

definition addNotification ::
  "env \<Rightarrow> uid \<Rightarrow> string \<Rightarrow> uid \<Rightarrow> string \<Rightarrow> string option \<Rightarrow> string option \<Rightarrow> db \<Rightarrow> db" where
  "addNotification e userId ty src msg chat pst s =
     s\<lparr>notifications := (notifications s)(userId :=
        AList.update (notifKey e)
          \<lparr>n_type = ty, n_from = src, n_message = msg, n_timestamp = clientTime e,
           n_chatId = chat, n_postId = pst, n_id = notifKey e, n_read = False,
           n_createdAt = clientTime e\<rparr>
          (notifications s userId))\<rparr>"

section \<open>Social graph (friends.js)\<close>

definition areFriends :: "db \<Rightarrow> uid \<Rightarrow> uid \<Rightarrow> bool" where
  "areFriends s userId1 userId2 = exists_child (friends s userId1) userId2"

definition set_friend :: "uid \<Rightarrow> uid \<Rightarrow> friend_edge \<Rightarrow> db \<Rightarrow> db" where
  "set_friend a b ed s = s\<lparr>friends := (friends s)(a := AList.update b ed (friends s a))\<rparr>"

definition remove_friend :: "uid \<Rightarrow> uid \<Rightarrow> db \<Rightarrow> db" where
  "remove_friend a b s = s\<lparr>friends := (friends s)(a := AList.delete b (friends s a))\<rparr>"

definition remove_request :: "uid \<Rightarrow> uid \<Rightarrow> db \<Rightarrow> db" where
  "remove_request owner src s =
     s\<lparr>friendRequests := (friendRequests s)(owner := AList.delete src (friendRequests s owner))\<rparr>"

definition set_request :: "uid \<Rightarrow> uid \<Rightarrow> friend_request \<Rightarrow> db \<Rightarrow> db" where
  "set_request owner src r s =
     s\<lparr>friendRequests := (friendRequests s)(owner := AList.update src r (friendRequests s owner))\<rparr>"

text \<open>
  The loop of \<open>sendFriendRequest\<close> over the snapshot of \<^verbatim>\<open>users\<close>: the first user, in
  snapshot order, whose \<^verbatim>\<open>username\<close> is the wanted one.
\<close>

fun find_uid_by_username :: "(uid \<times> profile) list \<Rightarrow> string \<Rightarrow> uid option" where
  "find_uid_by_username [] name = None"
| "find_uid_by_username ((u, p) # us) name =
     (if username p = Some name then Some u else find_uid_by_username us name)"

text \<open>
  \<open>sendFriendRequest\<close>. The source first resolves the username through the
  \<^verbatim>\<open>usernames\<close> index and the profile it points to, then (after a read of \<^verbatim>\<open>users\<close> whose
  result, \<^verbatim>\<open>targetUserId\<close>, is never used) scans \<^verbatim>\<open>users\<close> for the id. The notification
  text reads \<^verbatim>\<open>displayName\<close> off the caller's profile after the request is written, which
  throws when the caller has no profile.
\<close>

definition sendFriendRequest :: "env \<Rightarrow> string \<Rightarrow> db \<Rightarrow> (error + bool) \<times> db" where
  "sendFriendRequest e targetUsername s =
     (case currentUser e of
        None \<Rightarrow> (Inl Unauthenticated, s)
      | Some currentUserId \<Rightarrow>
         (case getUserByUsername s targetUsername of
            Inl err \<Rightarrow> (Inl err, s)
          | Inr None \<Rightarrow> (Inl NotFound, s)
          | Inr (Some targetUser) \<Rightarrow>
             (case find_uid_by_username (children (users s)) targetUsername of
                None \<Rightarrow> (Inl NotFound, s)
              | Some targetUid \<Rightarrow>
                 if targetUid = currentUserId then (Inl SelfReference, s)
                 else if exists_child (friends s currentUserId) targetUid
                   then (Inl AlreadyFriends, s)
                 else if exists_child (friendRequests s targetUid) currentUserId
                   then (Inl DuplicateRequest, s)
                 else if exists_child (friendRequests s currentUserId) targetUid
                   then (Inl ReciprocalPending, s)
                 else
                   let s1 = set_request targetUid currentUserId
                              \<lparr>req_from = currentUserId, req_to = targetUid,
                               req_timestamp = serverTime e, req_status = ''pending''\<rparr> s
                   in (case getUserProfile s1 currentUserId of
                         None \<Rightarrow> (Inl TypeError, s1)
                       | Some p \<Rightarrow>
                          (Inr True,
                           addNotification e targetUid ''friend_request'' currentUserId
                             (js_str (displayName p) @ '' sent you a friend request'')
                             None None s1)))))"

text \<open>
  \<open>acceptFriendRequest\<close> removes \<^verbatim>\<open>friendRequests/{current}/{from}\<close> without reading it,
  writes the two edges, then notifies the sender.
\<close>

definition acceptFriendRequest :: "env \<Rightarrow> uid \<Rightarrow> db \<Rightarrow> (error + bool) \<times> db" where
  "acceptFriendRequest e fromUserId s =
     (case currentUser e of
        None \<Rightarrow> (Inl Unauthenticated, s)
      | Some currentUserId \<Rightarrow>
         let s1 = remove_request currentUserId fromUserId s;
             ed = \<lparr>addedAt = serverTime e, status = ''accepted''\<rparr>;
             s2 = set_friend currentUserId fromUserId ed s1;
             s3 = set_friend fromUserId currentUserId ed s2
         in (case getUserProfile s3 currentUserId of
               None \<Rightarrow> (Inl TypeError, s3)
             | Some p \<Rightarrow>
                (Inr True,
                 addNotification e fromUserId ''friend_request_accepted'' currentUserId
                   (js_str (displayName p) @ '' accepted your friend request'')
                   None None s3)))"

definition rejectFriendRequest :: "env \<Rightarrow> uid \<Rightarrow> db \<Rightarrow> (error + bool) \<times> db" where
  "rejectFriendRequest e fromUserId s =
     (case currentUser e of
        None \<Rightarrow> (Inl Unauthenticated, s)
      | Some currentUserId \<Rightarrow> (Inr True, remove_request currentUserId fromUserId s))"

definition removeFriend :: "env \<Rightarrow> uid \<Rightarrow> db \<Rightarrow> (error + bool) \<times> db" where
  "removeFriend e friendUserId s =
     (case currentUser e of
        None \<Rightarrow> (Inl Unauthenticated, s)
      | Some currentUserId \<Rightarrow>
         (Inr True,
          remove_friend friendUserId currentUserId (remove_friend currentUserId friendUserId s)))"

text \<open>The mirrored-edge invariant: \<^verbatim>\<open>friends/A/B\<close> exists iff \<^verbatim>\<open>friends/B/A\<close> exists.\<close>

definition mirrored :: "db \<Rightarrow> bool" where
  "mirrored s = (\<forall>a b. areFriends s a b = areFriends s b a)"

section \<open>Friend lists and suggestions (friends.js)\<close>

text \<open>
  The loops of \<open>getFriendsList\<close> and \<open>getFriendRequests\<close>: each child of the node, in
  snapshot order, joined with the profile of its key; a child whose profile is missing is
  skipped.
\<close>

fun with_profiles :: "db \<Rightarrow> (uid \<times> 'a) list \<Rightarrow> (uid \<times> profile \<times> 'a) list" where
  "with_profiles s [] = []"
| "with_profiles s ((u, x) # rest) =
     (case getUserProfile s u of
        None \<Rightarrow> with_profiles s rest
      | Some p \<Rightarrow> (u, p, x) # with_profiles s rest)"

definition getFriendsList :: "env \<Rightarrow> db \<Rightarrow> (uid \<times> profile \<times> friend_edge) list" where
  "getFriendsList e s =
     (case currentUser e of
        None \<Rightarrow> []
      | Some currentUserId \<Rightarrow> with_profiles s (children (friends s currentUserId)))"

definition getFriendRequests :: "env \<Rightarrow> db \<Rightarrow> (uid \<times> profile \<times> friend_request) list" where
  "getFriendRequests e s =
     (case currentUser e of
        None \<Rightarrow> []
      | Some currentUserId \<Rightarrow> with_profiles s (children (friendRequests s currentUserId)))"

definition getAllUsers :: "db \<Rightarrow> (uid \<times> profile) list" where
  "getAllUsers s = children (users s)"

text \<open>
  \<^verbatim>\<open>xs.slice(0, stop)\<close> for an integer \<^verbatim>\<open>stop\<close>: a negative \<^verbatim>\<open>stop\<close> counts from the end of
  the array.
\<close>

definition js_slice0 :: "int \<Rightarrow> 'a list \<Rightarrow> 'a list" where
  "js_slice0 stop xs =
     take (nat (if stop < 0 then int (length xs) + stop else stop)) xs"

definition getFriendSuggestions :: "env \<Rightarrow> int \<Rightarrow> db \<Rightarrow> (uid \<times> profile) list" where
  "getFriendSuggestions e limit s =
     (case currentUser e of
        None \<Rightarrow> []
      | Some currentUserId \<Rightarrow>
         let allUsers = getAllUsers s;
             friendIds = map fst (getFriendsList e s);
             pendingRequestIds = map fst (getFriendRequests e s)
         in js_slice0 limit
              (filter (\<lambda>user. fst user \<noteq> currentUserId
                           \<and> fst user \<notin> set friendIds
                           \<and> fst user \<notin> set pendingRequestIds) allUsers))"

section \<open>Messaging (chat.js)\<close>

definition generateChatId :: "uid \<Rightarrow> uid \<Rightarrow> string" where
  "generateChatId userId1 userId2 =
     (if userId1 < userId2 then userId1 @ ''_'' @ userId2 else userId2 @ ''_'' @ userId1)"

definition getUnreadCount :: "db \<Rightarrow> uid \<Rightarrow> string \<Rightarrow> int" where
  "getUnreadCount s userId chatId =
     (case userChats s userId chatId of
        None \<Rightarrow> 0
      | Some uc \<Rightarrow> or0 (unreadCount uc))"

definition no_user_chat :: user_chat where
  "no_user_chat = \<lparr>lastMessage = None, lastMessageTime = None, otherUserId = None,
                    unreadCount = None\<rparr>"

text \<open>\<^verbatim>\<open>update\<close> on \<^verbatim>\<open>userChats/{u}/{chatId}\<close>: the named fields are written, the others kept.\<close>

definition update_user_chat :: "uid \<Rightarrow> string \<Rightarrow> (user_chat \<Rightarrow> user_chat) \<Rightarrow> db \<Rightarrow> db" where
  "update_user_chat u c f s =
     s\<lparr>userChats := (userChats s)(u := (userChats s u)(c \<mapsto>
          f (case userChats s u c of None \<Rightarrow> no_user_chat | Some uc \<Rightarrow> uc)))\<rparr>"

definition set_message :: "string \<Rightarrow> key \<Rightarrow> message \<Rightarrow> db \<Rightarrow> db" where
  "set_message chatId k m s =
     s\<lparr>messages := (messages s)(chatId := AList.update k m (messages s chatId))\<rparr>"

text \<open>
  \<open>sendMessage\<close> checks the session and the friendship and nothing else; the text is
  stored as it is given. The unread count of the recipient is read after the sender's
  summary has been written.
\<close>

definition sendMessage :: "env \<Rightarrow> uid \<Rightarrow> string \<Rightarrow> db \<Rightarrow> (error + key) \<times> db" where
  "sendMessage e recipient messageText s =
     (case currentUser e of
        None \<Rightarrow> (Inl Unauthenticated, s)
      | Some currentUserId \<Rightarrow>
         if \<not> areFriends s currentUserId recipient then (Inl NotFriends, s)
         else
           let chatId = generateChatId currentUserId recipient;
               s1 = set_message chatId (pushKey e)
                      \<lparr>senderId = currentUserId, recipientId = recipient,
                       m_text = messageText, timestamp = Some (serverTime e),
                       read = False\<rparr> s;
               s2 = s1\<lparr>chats := (chats s1)(chatId \<mapsto>
                      \<lparr>participants = [currentUserId, recipient],
                       cm_lastMessage = (messageText, currentUserId, serverTime e),
                       updatedAt = serverTime e\<rparr>)\<rparr>;
               s3 = update_user_chat currentUserId chatId
                      (\<lambda>uc. uc\<lparr>lastMessage := Some messageText,
                                lastMessageTime := Some (serverTime e),
                                otherUserId := Some recipient\<rparr>) s2;
               n = getUnreadCount s3 recipient chatId + 1;
               s4 = update_user_chat recipient chatId
                      (\<lambda>uc. uc\<lparr>lastMessage := Some messageText,
                                lastMessageTime := Some (serverTime e),
                                otherUserId := Some currentUserId,
                                unreadCount := Some n\<rparr>) s3
           in (case getUserProfile s4 currentUserId of
                 None \<Rightarrow> (Inl TypeError, s4)
               | Some senderProfile \<Rightarrow>
                  (Inr (pushKey e),
                   addNotification e recipient ''new_message'' currentUserId
                     (js_str (displayName senderProfile) @ '' sent you a message'')
                     (Some chatId) None s4)))"

text \<open>
  \<^verbatim>\<open>query(ref, limitToLast(limit))\<close>: the last \<open>limit\<close> children in key order. The SDK
  rejects a limit that is not a positive integer; \<open>None\<close> is that exception.
\<close>

definition limitToLast :: "int \<Rightarrow> 'a list \<Rightarrow> 'a list option" where
  "limitToLast limit xs =
     (if limit < 1 then None else Some (drop (length xs - nat limit) xs))"

text \<open>
  \<^verbatim>\<open>messagesList.sort((a, b) => (a.timestamp || 0) - (b.timestamp || 0))\<close>: the array sort
  of JavaScript is stable, as \<open>sort_key\<close> is.
\<close>

definition sort_by_timestamp :: "(key \<times> message) list \<Rightarrow> (key \<times> message) list" where
  "sort_by_timestamp ms = sort_key (\<lambda>m. or0 (timestamp (snd m))) ms"

text \<open>
  \<open>getChatMessages\<close> returns the empty list when nobody is signed in and when anything
  throws (its \<^verbatim>\<open>catch\<close>); otherwise the queried snapshot, each message with its key as
  \<^verbatim>\<open>id\<close>, sorted by timestamp.
\<close>

definition getChatMessages :: "env \<Rightarrow> uid \<Rightarrow> int \<Rightarrow> db \<Rightarrow> (key \<times> message) list" where
  "getChatMessages e otherUser limit s =
     (case currentUser e of
        None \<Rightarrow> []
      | Some currentUserId \<Rightarrow>
         (case limitToLast limit
                 (children (messages s (generateChatId currentUserId otherUser))) of
            None \<Rightarrow> []
          | Some snapshot \<Rightarrow> if snapshot = [] then [] else sort_by_timestamp snapshot))"

text \<open>
  \<open>listenToChatMessages\<close>: the list handed to the callback for the store \<open>s\<close>; \<open>None\<close>
  when no callback is made (nobody signed in, or the query is rejected).
\<close>

definition listenToChatMessages ::
  "env \<Rightarrow> uid \<Rightarrow> int \<Rightarrow> db \<Rightarrow> (key \<times> message) list option" where
  "listenToChatMessages e otherUser limit s =
     (case currentUser e of
        None \<Rightarrow> None
      | Some currentUserId \<Rightarrow>
         (case limitToLast limit
                 (children (messages s (generateChatId currentUserId otherUser))) of
            None \<Rightarrow> None
          | Some snapshot \<Rightarrow>
             Some (if snapshot = [] then [] else sort_by_timestamp snapshot)))"

text \<open>
  \<open>markMessagesAsRead\<close> returns nothing and swallows every exception, so the model
  returns the store only.
\<close>

definition markMessagesAsRead :: "env \<Rightarrow> uid \<Rightarrow> db \<Rightarrow> db" where
  "markMessagesAsRead e otherUser s =
     (case currentUser e of
        None \<Rightarrow> s
      | Some currentUserId \<Rightarrow>
         let chatId = generateChatId currentUserId otherUser;
             s1 = update_user_chat currentUserId chatId (\<lambda>uc. uc\<lparr>unreadCount := Some 0\<rparr>) s;
             msgs = messages s1 chatId
         in if msgs = [] then s1
            else
              let updates = map fst (filter (\<lambda>(k, m). recipientId m = currentUserId \<and> \<not> read m)
                                       (children msgs))
              in if updates = [] then s1
                 else s1\<lparr>messages := (messages s1)(chatId :=
                        map (\<lambda>(k, m). if k \<in> set updates then (k, m\<lparr>read := True\<rparr>) else (k, m))
                          msgs)\<rparr>)"

section \<open>Feed (posts.js)\<close>

text \<open>
  \<^verbatim>\<open>String.prototype.trim\<close>: the white space of JavaScript among the characters of the
  8-bit \<open>char\<close> type is tab, line feed, vertical tab, form feed, carriage return, space and
  the no-break space.
\<close>

definition is_space :: "char \<Rightarrow> bool" where
  "is_space c = ((of_char c :: nat) \<in> {9, 10, 11, 12, 13, 32, 160})"

definition trim :: "string \<Rightarrow> string" where
  "trim str = rev (dropWhile is_space (rev (dropWhile is_space str)))"

text \<open>
  A post node. \<^verbatim>\<open>likes/{uid}\<close> is only ever written \<^verbatim>\<open>true\<close> or removed, so the node is
  the list of its keys. Firebase keeps no empty node: a post none of whose fields is
  present does not exist, which is what \<open>get_post\<close> reads.
\<close>

definition no_post :: post where
  "no_post = \<lparr>authorId = None, authorName = None, authorPhoto = None, content = None,
               image = None, p_timestamp = None, likes = [], likesCount = None,
               comments = [], commentsCount = None, createdAt = None\<rparr>"

definition get_post :: "db \<Rightarrow> key \<Rightarrow> post option" where
  "get_post s postId =
     (case posts s postId of
        None \<Rightarrow> None
      | Some p \<Rightarrow> if p = no_post then None else Some p)"

definition update_post :: "key \<Rightarrow> (post \<Rightarrow> post) \<Rightarrow> db \<Rightarrow> db" where
  "update_post postId f s =
     s\<lparr>posts := (posts s)(postId \<mapsto>
          f (case posts s postId of None \<Rightarrow> no_post | Some p \<Rightarrow> p))\<rparr>"

text \<open>
  \<open>createPost\<close>; the image argument is the reference the upload collaborator returns
  for the file, \<open>None\<close> when no file is given. A profile without \<^verbatim>\<open>displayName\<close> or
  \<^verbatim>\<open>photoURL\<close> puts an \<^verbatim>\<open>undefined\<close> into the post data, which \<^verbatim>\<open>set\<close> rejects.
\<close>

definition createPost :: "env \<Rightarrow> string \<Rightarrow> string option \<Rightarrow> db \<Rightarrow> (error + key) \<times> db" where
  "createPost e contentText imageFile s =
     (case currentUser e of
        None \<Rightarrow> (Inl Unauthenticated, s)
      | Some currentUserId \<Rightarrow>
         if trim contentText = [] \<and> imageFile = None then (Inl EmptyPost, s)
         else
           (case getUserProfile s currentUserId of
              None \<Rightarrow> (Inl TypeError, s)
            | Some userProfile \<Rightarrow>
               if displayName userProfile = None \<or> photoURL userProfile = None
               then (Inl InvalidData, s)
               else
                 let postData = \<lparr>authorId = Some currentUserId,
                                 authorName = displayName userProfile,
                                 authorPhoto = photoURL userProfile,
                                 content = Some (trim contentText),
                                 image = imageFile,
                                 p_timestamp = Some (serverTime e),
                                 likes = [], likesCount = Some 0,
                                 comments = [], commentsCount = Some 0,
                                 createdAt = Some (clientTime e)\<rparr>;
                     s1 = s\<lparr>posts := (posts s)(pushKey e \<mapsto> postData)\<rparr>;
                     s2 = s1\<lparr>userPosts := (userPosts s1)(currentUserId :=
                            userPosts s1 currentUserId @ [pushKey e])\<rparr>
                 in (Inr (pushKey e), s2)))"

text \<open>
  \<open>togglePostLike\<close>. The like (or unlike) and the new count go to the store in one
  \<^verbatim>\<open>update\<close>; the count is computed from the \<^verbatim>\<open>likesCount\<close> that was read.
\<close>

definition togglePostLike :: "env \<Rightarrow> key \<Rightarrow> db \<Rightarrow> (error + bool) \<times> db" where
  "togglePostLike e postId s =
     (case currentUser e of
        None \<Rightarrow> (Inl Unauthenticated, s)
      | Some currentUserId \<Rightarrow>
         (case get_post s postId of
            None \<Rightarrow> (Inl NotFound, s)
          | Some post \<Rightarrow>
             let isLiked = (currentUserId \<in> set (likes post)) in
             if isLiked then
               (Inr False,
                update_post postId
                  (\<lambda>p. p\<lparr>likes := removeAll currentUserId (likes p),
                         likesCount := Some (or0 (likesCount post) - 1)\<rparr>) s)
             else
               let s1 = update_post postId
                          (\<lambda>p. p\<lparr>likes := likes p @ [currentUserId],
                                 likesCount := Some (or0 (likesCount post) + 1)\<rparr>) s
               in if authorId post \<noteq> Some currentUserId then
                    (case getUserProfile s1 currentUserId of
                       None \<Rightarrow> (Inl TypeError, s1)
                     | Some userProfile \<Rightarrow>
                        (Inr True,
                         addNotification e (js_str (authorId post)) ''post_like'' currentUserId
                           (js_str (displayName userProfile) @ '' liked your post'')
                           None (Some postId) s1))
                  else (Inr True, s1)))"

text \<open>
  \<open>addComment\<close> does not read the post before it writes the comment: on a post id
  that does not exist it creates the node \<^verbatim>\<open>posts/{postId}/comments\<close>. The count is read
  after the comment is written.
\<close>

definition addComment :: "env \<Rightarrow> key \<Rightarrow> string \<Rightarrow> db \<Rightarrow> (error + key) \<times> db" where
  "addComment e postId commentText s =
     (case currentUser e of
        None \<Rightarrow> (Inl Unauthenticated, s)
      | Some currentUserId \<Rightarrow>
         if trim commentText = [] then (Inl EmptyComment, s)
         else
           (case getUserProfile s currentUserId of
              None \<Rightarrow> (Inl TypeError, s)
            | Some userProfile \<Rightarrow>
               if displayName userProfile = None \<or> photoURL userProfile = None
               then (Inl InvalidData, s)
               else
                 let commentData = \<lparr>c_authorId = currentUserId,
                                    c_authorName = displayName userProfile,
                                    c_authorPhoto = photoURL userProfile,
                                    c_text = trim commentText,
                                    c_timestamp = serverTime e,
                                    c_createdAt = clientTime e\<rparr>;
                     s1 = update_post postId
                            (\<lambda>p. p\<lparr>comments := AList.update (pushKey e) commentData (comments p)\<rparr>)
                            s
                 in (case get_post s1 postId of
                       None \<Rightarrow> (Inl TypeError, s1)
                     | Some post \<Rightarrow>
                        let s2 = update_post postId
                                   (\<lambda>p. p\<lparr>commentsCount := Some (or0 (commentsCount post) + 1)\<rparr>)
                                   s1
                        in if authorId post \<noteq> Some currentUserId then
                             (Inr (pushKey e),
                              addNotification e (js_str (authorId post)) ''post_comment''
                                currentUserId
                                (js_str (displayName userProfile) @ '' commented on your post'')
                                None (Some postId) s2)
                           else (Inr (pushKey e), s2))))"

text \<open>
  \<open>deleteComment\<close>: the count written back is \<^verbatim>\<open>Math.max((post.commentsCount || 0) - 1, 0)\<close>.
  When the comment was all there was of the post, the post read back is \<^verbatim>\<open>null\<close> and
  reading its count throws.
\<close>

definition deleteComment :: "env \<Rightarrow> key \<Rightarrow> key \<Rightarrow> db \<Rightarrow> (error + bool) \<times> db" where
  "deleteComment e postId commentId s =
     (case currentUser e of
        None \<Rightarrow> (Inl Unauthenticated, s)
      | Some currentUserId \<Rightarrow>
         (case (case get_post s postId of
                  None \<Rightarrow> None
                | Some p \<Rightarrow> map_of (comments p) commentId) of
            None \<Rightarrow> (Inl NotFound, s)
          | Some c \<Rightarrow>
             if c_authorId c \<noteq> currentUserId then (Inl Forbidden, s)
             else
               let s1 = update_post postId
                          (\<lambda>p. p\<lparr>comments := AList.delete commentId (comments p)\<rparr>) s
               in (case get_post s1 postId of
                     None \<Rightarrow> (Inl TypeError, s1)
                   | Some post \<Rightarrow>
                      (Inr True,
                       update_post postId
                         (\<lambda>p. p\<lparr>commentsCount := Some (max (or0 (commentsCount post) - 1) 0)\<rparr>)
                         s1))))"

section \<open>Notions the properties are stated with\<close>


text \<open>A notification of the given type and source is queued, unread, under the key.\<close>

definition notified :: "db \<Rightarrow> uid \<Rightarrow> key \<Rightarrow> string \<Rightarrow> uid \<Rightarrow> bool" where
  "notified s owner k ty src =
     (case map_of (notifications s owner) k of
        None \<Rightarrow> False
      | Some n \<Rightarrow> n_type n = ty \<and> n_from n = src \<and> \<not> n_read n)"

text \<open>
  The orders of a list of messages. \<open>msg_time\<close> is the key of the sort of \<open>getChatMessages\<close>.
  \<open>write_seq\<close> is the position of a key in the order of the writes, the sequence number a
  counter incremented at each write would have given it; the source keeps no such number.
  \<open>by_time_then_insertion\<close> is the order the claim states, \<open>by_time_then_key\<close> the order
  the code produces.
\<close>

definition msg_time :: "key \<times> message \<Rightarrow> int" where
  "msg_time m = or0 (timestamp (snd m))"

definition write_seq :: "(key \<times> 'a) list \<Rightarrow> key \<Rightarrow> nat" where
  "write_seq stored k = length (takeWhile (\<lambda>p. fst p \<noteq> k) stored)"

definition by_time_then_insertion :: "(key \<times> message) list \<Rightarrow> (key \<times> message) list \<Rightarrow> bool" where
  "by_time_then_insertion stored ms =
     sorted_wrt (\<lambda>a b. msg_time a < msg_time b
                    \<or> (msg_time a = msg_time b
                        \<and> write_seq stored (fst a) < write_seq stored (fst b))) ms"

definition by_time_then_key :: "(key \<times> message) list \<Rightarrow> bool" where
  "by_time_then_key ms =
     sorted_wrt (\<lambda>a b. msg_time a < msg_time b
                    \<or> (msg_time a = msg_time b \<and> fst a \<le> fst b)) ms"

text \<open>
  The counters of a post agree with its like set and its comment log. The invariant is
  stated for a post that exists, with both counts stored.
\<close>

definition post_counts_ok :: "db \<Rightarrow> key \<Rightarrow> bool" where
  "post_counts_ok s postId =
     (case get_post s postId of
        None \<Rightarrow> False
      | Some p \<Rightarrow> likesCount p = Some (int (card (set (likes p))))
                \<and> commentsCount p = Some (int (length (comments p))))"

text \<open>
  Sequences of \<open>togglePostLike\<close> and \<open>addComment\<close> calls, each with the session and the
  values the environment supplies to it. \<open>run_feed_ops\<close> lists the store after each call of
  the sequence. \<^verbatim>\<open>push\<close> returns a key that is not yet a child of the node it pushes to;
  \<open>pushes_fresh\<close> says so of the key each \<open>addComment\<close> of the sequence is given.
\<close>

datatype feed_op = ToggleLike env key | AddComment env key string

fun apply_feed_op :: "feed_op \<Rightarrow> db \<Rightarrow> db" where
  "apply_feed_op (ToggleLike e postId) s = snd (togglePostLike e postId s)"
| "apply_feed_op (AddComment e postId commentText) s = snd (addComment e postId commentText s)"

fun push_fresh :: "feed_op \<Rightarrow> db \<Rightarrow> bool" where
  "push_fresh (ToggleLike e postId) s = True"
| "push_fresh (AddComment e postId commentText) s =
     (pushKey e \<notin> fst ` set (comments (case posts s postId of None \<Rightarrow> no_post | Some p \<Rightarrow> p)))"

fun run_feed_ops :: "feed_op list \<Rightarrow> db \<Rightarrow> db list" where
  "run_feed_ops [] s = []"
| "run_feed_ops (x # xs) s = apply_feed_op x s # run_feed_ops xs (apply_feed_op x s)"

fun pushes_fresh :: "feed_op list \<Rightarrow> db \<Rightarrow> bool" where
  "pushes_fresh [] s = True"
| "pushes_fresh (x # xs) s = (push_fresh x s \<and> pushes_fresh xs (apply_feed_op x s))"

section \<open>A small population\<close>

text \<open>Three users with profiles and usernames, and the session of a signed-in user.\<close>

definition person :: "string \<Rightarrow> string \<Rightarrow> profile" where
  "person uname dname =
     \<lparr>username = Some uname, displayName = Some dname, photoURL = Some (uname @ ''.png'')\<rparr>"

definition three_users :: db where
  "three_users = empty_db
     \<lparr>users := [(''u1'', person ''alice'' ''Alice''), (''u2'', person ''bob'' ''Bob''),
                (''u3'', person ''carol'' ''Carol'')],
      usernames := [(''alice'', ''u1''), (''bob'', ''u2''), (''carol'', ''u3'')]\<rparr>"

definition session :: "uid \<Rightarrow> key \<Rightarrow> int \<Rightarrow> env" where
  "session u k t =
     \<lparr>currentUser = Some u, pushKey = k, notifKey = k @ ''n'', serverTime = t, clientTime = t\<rparr>"

text \<open>A post whose stored comment count is missing although its log holds a comment.\<close>

definition stale_post :: post where
  "stale_post = no_post\<lparr>authorId := Some ''u1'',
      comments := [(''-C1'', \<lparr>c_authorId = ''u2'', c_authorName = Some ''Bob'',
         c_authorPhoto = Some ''bob.png'', c_text = ''hi'', c_timestamp = 5, c_createdAt = 5\<rparr>)]\<rparr>"

definition stale_db :: db where
  "stale_db = three_users\<lparr>posts := [''-P1'' \<mapsto> stale_post]\<rparr>"

text \<open>Carol (\<open>u3\<close>) has asked Alice (\<open>u1\<close>); Alice has asked Bob (\<open>u2\<close>).\<close>

definition carol_asked_alice :: db where
  "carol_asked_alice = snd (sendFriendRequest (session ''u3'' ''-R1'' 10) ''alice'' three_users)"

definition alice_asked_bob :: db where
  "alice_asked_bob = snd (sendFriendRequest (session ''u1'' ''-R2'' 20) ''bob'' carol_asked_alice)"

text \<open>
  Alice and Bob are friends: Alice asked, Bob accepted. And a store in which Alice accepted
  a request of her own id, which \<open>acceptFriendRequest\<close> does not refuse.
\<close>

definition alice_bob_friends :: db where
  "alice_bob_friends =
     snd (acceptFriendRequest (session ''u2'' ''-A1'' 40) ''u1''
            (snd (sendFriendRequest (session ''u1'' ''-R2'' 20) ''bob'' three_users)))"

definition alice_own_friend :: db where
  "alice_own_friend = snd (acceptFriendRequest (session ''u1'' ''-A0'' 5) ''u1'' three_users)"

text \<open>Alice has sent Bob one message, which Bob has not read.\<close>

definition bob_has_unread :: db where
  "bob_has_unread = snd (sendMessage (session ''u1'' ''-M1'' 50) ''u2'' ''hi'' alice_bob_friends)"

text \<open>
  Push keys are made on the client, from its clock and random bits. Here Alice's message
  is written first, under the key \<open>-Mb\<close>, and Bob's second, under the smaller key \<open>-Ma\<close>;
  the server gives both the timestamp 50.
\<close>

definition crossed_keys :: db where
  "crossed_keys =
     snd (sendMessage (session ''u2'' ''-Ma'' 50) ''u1'' ''second''
            (snd (sendMessage (session ''u1'' ''-Mb'' 50) ''u2'' ''first'' alice_bob_friends)))"

text \<open>Alice posts; Bob likes, comments, and takes his like back; Alice likes her post.\<close>

definition alice_posted :: db where
  "alice_posted = snd (createPost (session ''u1'' ''-P1'' 80) ''hello'' None three_users)"

definition feed_ops :: "feed_op list" where
  "feed_ops = [ToggleLike (session ''u2'' ''-L1'' 81) ''-P1'',
               AddComment (session ''u2'' ''-C1'' 82) ''-P1'' '' nice '',
               ToggleLike (session ''u2'' ''-L2'' 83) ''-P1'',
               ToggleLike (session ''u1'' ''-L3'' 84) ''-P1'']"

section \<open>Friend edges are mirrored\<close>


lemma areFriends_set_friend:
  "areFriends (set_friend a b ed s) x y = ((x = a \<and> y = b) \<or> areFriends s x y)"
  by (auto simp: areFriends_def set_friend_def exists_child_def update_conv')

lemma areFriends_remove_friend:
  "areFriends (remove_friend a b s) x y = (\<not> (x = a \<and> y = b) \<and> areFriends s x y)"
  by (auto simp: areFriends_def remove_friend_def exists_child_def delete_conv')

lemma areFriends_remove_request:
  "areFriends (remove_request a b s) x y = areFriends s x y"
  by (simp add: areFriends_def remove_request_def)

lemma areFriends_addNotification:
  "areFriends (addNotification e u ty src msg c p s) x y = areFriends s x y"
  by (simp add: areFriends_def addNotification_def)

lemmas areFriends_writes = areFriends_set_friend areFriends_remove_friend
  areFriends_remove_request areFriends_addNotification

lemma acceptFriendRequest_friends:
  "areFriends (snd (acceptFriendRequest e b s)) x y =
     (case currentUser e of None \<Rightarrow> areFriends s x y
      | Some a \<Rightarrow> (x = a \<and> y = b) \<or> (x = b \<and> y = a) \<or> areFriends s x y)"
  by (auto simp: acceptFriendRequest_def Let_def areFriends_writes split: option.splits)

lemma removeFriend_friends:
  "areFriends (snd (removeFriend e b s)) x y =
     (case currentUser e of None \<Rightarrow> areFriends s x y
      | Some a \<Rightarrow> \<not> (x = a \<and> y = b) \<and> \<not> (x = b \<and> y = a) \<and> areFriends s x y)"
  by (auto simp: removeFriend_def areFriends_writes split: option.splits)

text \<open>
  Claim C1. When \<open>acceptFriendRequest\<close> completes for owner \<open>a\<close> and sender \<open>b\<close>, both
  \<open>areFriends a b\<close> and \<open>areFriends b a\<close> hold in the store it leaves; and the mirrored-edge
  invariant (\<^verbatim>\<open>friends/A/B\<close> exists iff \<^verbatim>\<open>friends/B/A\<close> exists) is kept by
  \<open>acceptFriendRequest\<close> and by \<open>removeFriend\<close>, whatever their outcome.
\<close>

theorem accept_remove_keep_mirrored:
  "(acceptFriendRequest e b s = (Inr r, s') \<longrightarrow>
      (\<exists>a. currentUser e = Some a \<and> areFriends s' a b \<and> areFriends s' b a))
   \<and> (mirrored s \<longrightarrow> mirrored (snd (acceptFriendRequest e b s)))
   \<and> (mirrored s \<longrightarrow> mirrored (snd (removeFriend e b s)))"
proof (intro conjI impI)
  assume acc: "acceptFriendRequest e b s = (Inr r, s')"
  then obtain a where a: "currentUser e = Some a"
    by (cases "currentUser e") (auto simp: acceptFriendRequest_def)
  from acc have "s' = snd (acceptFriendRequest e b s)" by simp
  with a show "\<exists>a. currentUser e = Some a \<and> areFriends s' a b \<and> areFriends s' b a"
    by (simp add: acceptFriendRequest_friends)
next
  assume m: "mirrored s"
  show "mirrored (snd (acceptFriendRequest e b s))"
    unfolding mirrored_def
  proof (intro allI)
    fix x y
    from m have "areFriends s x y = areFriends s y x" by (simp add: mirrored_def)
    then show "areFriends (snd (acceptFriendRequest e b s)) x y =
               areFriends (snd (acceptFriendRequest e b s)) y x"
      by (auto simp: acceptFriendRequest_friends split: option.splits)
  qed
next
  assume m: "mirrored s"
  show "mirrored (snd (removeFriend e b s))"
    unfolding mirrored_def
  proof (intro allI)
    fix x y
    from m have "areFriends s x y = areFriends s y x" by (simp add: mirrored_def)
    then show "areFriends (snd (removeFriend e b s)) x y =
               areFriends (snd (removeFriend e b s)) y x"
      by (auto simp: removeFriend_friends split: option.splits)
  qed
qed

lemma mirrored_three_users: "mirrored three_users"
  by (simp add: mirrored_def areFriends_def three_users_def empty_db_def exists_child_def)

lemma accept_three_users:
  "fst (acceptFriendRequest (session ''u2'' ''-N1'' 100) ''u1'' three_users) = Inr True"
  by (simp add: acceptFriendRequest_def session_def three_users_def empty_db_def Let_def
      getUserProfile_def set_friend_def remove_request_def)

theorem accept_remove_keep_mirrored_witness:
  "acceptFriendRequest (session ''u2'' ''-N1'' 100) ''u1'' three_users
     = (Inr True, snd (acceptFriendRequest (session ''u2'' ''-N1'' 100) ''u1'' three_users))
   \<and> mirrored three_users
   \<and> areFriends (snd (acceptFriendRequest (session ''u2'' ''-N1'' 100) ''u1'' three_users)) ''u2'' ''u1''
   \<and> areFriends (snd (acceptFriendRequest (session ''u2'' ''-N1'' 100) ''u1'' three_users)) ''u1'' ''u2''
   \<and> mirrored (snd (acceptFriendRequest (session ''u2'' ''-N1'' 100) ''u1'' three_users))
   \<and> mirrored (snd (removeFriend (session ''u1'' ''-N2'' 200) ''u2''
        (snd (acceptFriendRequest (session ''u2'' ''-N1'' 100) ''u1'' three_users))))
   \<and> \<not> areFriends (snd (removeFriend (session ''u1'' ''-N2'' 200) ''u2''
        (snd (acceptFriendRequest (session ''u2'' ''-N1'' 100) ''u1'' three_users)))) ''u2'' ''u1''"
proof -
  let ?e = "session ''u2'' ''-N1'' 100"
  let ?s1 = "snd (acceptFriendRequest ?e ''u1'' three_users)"
  have run: "acceptFriendRequest ?e ''u1'' three_users = (Inr True, ?s1)"
    using accept_three_users by (simp add: prod_eq_iff)
  have cur: "currentUser ?e = Some ''u2''" by (simp add: session_def)
  note first = accept_remove_keep_mirrored [of ?e "''u1''" three_users True ?s1]
  note second = accept_remove_keep_mirrored [of "session ''u1'' ''-N2'' 200" "''u2''" ?s1 True ?s1]
  have m1: "mirrored ?s1" using first mirrored_three_users by blast
  have fr: "areFriends ?s1 ''u2'' ''u1'' \<and> areFriends ?s1 ''u1'' ''u2''"
    using first run cur by auto
  have m2: "mirrored (snd (removeFriend (session ''u1'' ''-N2'' 200) ''u2'' ?s1))"
    using second m1 by blast
  have gone: "\<not> areFriends (snd (removeFriend (session ''u1'' ''-N2'' 200) ''u2'' ?s1)) ''u2'' ''u1''"
    by (simp add: removeFriend_friends session_def)
  show ?thesis using run mirrored_three_users m1 fr m2 gone by blast
qed

section \<open>Friend suggestions\<close>

lemma exists_child_iff: "exists_child xs k \<longleftrightarrow> k \<in> fst ` set xs"
  by (simp add: exists_child_def map_of_eq_None_iff)

lemma set_children [simp]: "set (children xs) = set xs"
  by (simp add: children_def)

lemma keys_with_profiles:
  "fst ` set (with_profiles s xs) = {u \<in> fst ` set xs. getUserProfile s u \<noteq> None}"
  by (induction s xs rule: with_profiles.induct) (auto split: option.splits)

lemma length_js_slice0: "0 \<le> limit \<Longrightarrow> int (length (js_slice0 limit xs)) \<le> limit"
  by (simp add: js_slice0_def)

lemma set_js_slice0: "set (js_slice0 limit xs) \<subseteq> set xs"
  by (simp add: js_slice0_def set_take_subset)

lemma listed_user_has_profile: "(u, p) \<in> set (getAllUsers s) \<Longrightarrow> getUserProfile s u \<noteq> None"
  by (auto simp: getAllUsers_def getUserProfile_def map_of_eq_None_iff intro: rev_image_eqI)

text \<open>
  Claim C9, as the code has it. For a non-negative limit the list of
  \<open>getFriendSuggestions\<close> has at most \<open>limit\<close> users; and for every limit it contains
  neither the owner, nor a friend of the owner, nor a user whose pending request to the
  owner is stored under \<^verbatim>\<open>friendRequests/{owner}\<close> (the incoming direction).
\<close>

theorem suggestions_exclusions:
  assumes "currentUser e = Some owner"
  shows "(0 \<le> limit \<longrightarrow> int (length (getFriendSuggestions e limit s)) \<le> limit)
       \<and> (\<forall>(u, p) \<in> set (getFriendSuggestions e limit s).
             u \<noteq> owner \<and> \<not> areFriends s owner u
             \<and> \<not> exists_child (friendRequests s owner) u)"
proof (intro conjI impI)
  assume "0 \<le> limit"
  then show "int (length (getFriendSuggestions e limit s)) \<le> limit"
    using assms by (simp add: getFriendSuggestions_def Let_def length_js_slice0)
next
  let ?keep = "\<lambda>user. fst user \<noteq> owner
      \<and> fst user \<notin> set (map fst (getFriendsList e s))
      \<and> fst user \<notin> set (map fst (getFriendRequests e s))"
  have sub: "set (getFriendSuggestions e limit s) \<subseteq> set (filter ?keep (getAllUsers s))"
    using assms set_js_slice0 [of limit "filter ?keep (getAllUsers s)"]
    by (simp add: getFriendSuggestions_def Let_def)
  show "\<forall>(u, p) \<in> set (getFriendSuggestions e limit s).
          u \<noteq> owner \<and> \<not> areFriends s owner u \<and> \<not> exists_child (friendRequests s owner) u"
  proof (clarify)
    fix u p
    assume "(u, p) \<in> set (getFriendSuggestions e limit s)"
    with sub have "(u, p) \<in> set (filter ?keep (getAllUsers s))" by blast
    then have mem: "(u, p) \<in> set (getAllUsers s)" and k: "?keep (u, p)" by simp_all
    from mem have prof: "getUserProfile s u \<noteq> None" by (rule listed_user_has_profile)
    from k have "u \<notin> fst ` set (getFriendsList e s)" "u \<notin> fst ` set (getFriendRequests e s)"
      by auto
    with prof assms have "u \<notin> fst ` set (friends s owner)" "u \<notin> fst ` set (friendRequests s owner)"
      by (auto simp: getFriendsList_def getFriendRequests_def keys_with_profiles)
    with k show "u \<noteq> owner \<and> \<not> areFriends s owner u \<and> \<not> exists_child (friendRequests s owner) u"
      by (simp add: areFriends_def exists_child_iff)
  qed
qed

lemma suggestions_for_alice:
  "getFriendSuggestions (session ''u1'' ''-K1'' 30) 10 carol_asked_alice
     = [(''u2'', person ''bob'' ''Bob'')]"
  by code_simp

theorem suggestions_exclusions_witness:
  "currentUser (session ''u1'' ''-K1'' 30) = Some ''u1''
   \<and> getFriendSuggestions (session ''u1'' ''-K1'' 30) 10 carol_asked_alice
       = [(''u2'', person ''bob'' ''Bob'')]
   \<and> exists_child (friendRequests carol_asked_alice ''u1'') ''u3''
   \<and> int (length (getFriendSuggestions (session ''u1'' ''-K1'' 30) 10 carol_asked_alice)) \<le> 10
   \<and> ''u2'' \<noteq> ''u1'' \<and> \<not> areFriends carol_asked_alice ''u1'' ''u2''
   \<and> \<not> exists_child (friendRequests carol_asked_alice ''u1'') ''u2''"
proof -
  have cur: "currentUser (session ''u1'' ''-K1'' 30) = Some ''u1''"
    by (simp add: session_def)
  have inc: "exists_child (friendRequests carol_asked_alice ''u1'') ''u3''"
    by code_simp
  from suggestions_exclusions [OF cur, of 10 carol_asked_alice]
  show ?thesis using cur inc by (simp add: suggestions_for_alice)
qed

text \<open>
  The claim as it is stated also excludes the users the owner has asked. They are not
  excluded: Alice's request to Bob is pending and Bob is suggested to Alice. And the bound
  on the length fails for a negative limit, which \<^verbatim>\<open>slice\<close> counts from the end: with
  the limit -1 and two candidates, one user is returned.
\<close>

theorem suggestions_outgoing_counterexample:
  "exists_child (friendRequests alice_asked_bob ''u2'') ''u1''
   \<and> ''u2'' \<in> fst ` set (getFriendSuggestions (session ''u1'' ''-K1'' 30) 10 alice_asked_bob)
   \<and> map fst (getFriendSuggestions (session ''u1'' ''-K1'' 30) (- 1) three_users) = [''u2'']"
  by code_simp

section \<open>Deleting a comment\<close>

lemma counted_post_exists: "commentsCount p \<noteq> None \<Longrightarrow> p \<noteq> no_post"
  by (auto simp: no_post_def)

lemma get_post_update_post:
  "get_post (update_post pid f s) pid' =
     (if pid' = pid
      then (let p = f (case posts s pid of None \<Rightarrow> no_post | Some p \<Rightarrow> p)
            in if p = no_post then None else Some p)
      else get_post s pid')"
  by (simp add: get_post_def update_post_def Let_def)

lemma posts_update_post:
  "posts (update_post pid f s) pid = Some (f (case posts s pid of None \<Rightarrow> no_post | Some p \<Rightarrow> p))"
  by (simp add: update_post_def)

text \<open>
  Claim C10. A completed \<open>deleteComment\<close> stores the count
  \<open>max (c - 1) 0\<close>, where \<open>c\<close> is the count stored before (0 when it is missing): the stored
  count is never negative, and it is 0, not -1, when the count before was 0 or missing.
\<close>

theorem deleteComment_count_clamped:
  assumes "deleteComment e postId commentId s = (Inr r, s')"
  shows "\<exists>p0 p. get_post s postId = Some p0 \<and> get_post s' postId = Some p
           \<and> commentsCount p = Some (max (or0 (commentsCount p0) - 1) 0)
           \<and> 0 \<le> or0 (commentsCount p)
           \<and> (or0 (commentsCount p0) = 0 \<longrightarrow> commentsCount p = Some 0)"
proof -
  from assms obtain cur where cur: "currentUser e = Some cur"
    by (cases "currentUser e") (auto simp: deleteComment_def)
  from assms cur obtain p0 where p0: "get_post s postId = Some p0"
    by (cases "get_post s postId") (auto simp: deleteComment_def)
  then have stored: "posts s postId = Some p0"
    by (auto simp: get_post_def split: option.splits if_splits)
  let ?s1 = "update_post postId (\<lambda>p. p\<lparr>comments := AList.delete commentId (comments p)\<rparr>) s"
  let ?p1 = "p0\<lparr>comments := AList.delete commentId (comments p0)\<rparr>"
  let ?n = "max (or0 (commentsCount p0) - 1) 0"
  have s1: "posts ?s1 postId = Some ?p1"
    by (simp add: posts_update_post stored)
  from assms cur p0 have ex: "get_post ?s1 postId = Some ?p1"
    by (auto simp: deleteComment_def Let_def get_post_update_post stored
        split: option.splits if_splits)
  from assms cur p0 ex
  have s': "s' = update_post postId (\<lambda>p. p\<lparr>commentsCount := Some ?n\<rparr>) ?s1"
    by (auto simp: deleteComment_def Let_def split: option.splits if_splits)
  have "get_post s' postId = Some (?p1\<lparr>commentsCount := Some ?n\<rparr>)"
    unfolding s' by (simp add: get_post_update_post s1 Let_def counted_post_exists)
  with p0 show ?thesis by (simp add: or0_def)
qed

lemma deleteComment_stale:
  "deleteComment (session ''u2'' ''-K9'' 9) ''-P1'' ''-C1'' stale_db
    = (Inr True, stale_db\<lparr>posts := [''-P1'' \<mapsto> stale_post\<lparr>comments := [], commentsCount := Some 0\<rparr>]\<rparr>)"
  by (simp add: deleteComment_def session_def stale_db_def stale_post_def three_users_def
      empty_db_def get_post_def update_post_def no_post_def or0_def Let_def)

theorem deleteComment_count_clamped_witness:
  "deleteComment (session ''u2'' ''-K9'' 9) ''-P1'' ''-C1'' stale_db
     = (Inr True, stale_db\<lparr>posts := [''-P1'' \<mapsto> stale_post\<lparr>comments := [], commentsCount := Some 0\<rparr>]\<rparr>)
   \<and> (\<exists>p0 p. get_post stale_db ''-P1'' = Some p0 \<and> commentsCount p0 = None
         \<and> get_post (stale_db\<lparr>posts := [''-P1'' \<mapsto> stale_post\<lparr>comments := [], commentsCount := Some 0\<rparr>]\<rparr>) ''-P1'' = Some p
         \<and> commentsCount p = Some 0)"
  using deleteComment_count_clamped [OF deleteComment_stale] deleteComment_stale
  by (auto simp: or0_def get_post_def stale_db_def stale_post_def no_post_def)

section \<open>Accepting a friend request\<close>

lemma users_writes [simp]:
  "users (set_friend a b ed s) = users s"
  "users (remove_friend a b s) = users s"
  "users (remove_request a b s) = users s"
  "users (set_request a b r s) = users s"
  "users (addNotification e u ty src msg c p s) = users s"
  by (simp_all add: set_friend_def remove_friend_def remove_request_def set_request_def
      addNotification_def)

lemma getUserProfile_writes [simp]:
  "getUserProfile (set_friend a b ed s) u = getUserProfile s u"
  "getUserProfile (remove_request a b s) u = getUserProfile s u"
  "getUserProfile (set_request a b r s) u = getUserProfile s u"
  by (simp_all add: getUserProfile_def)

lemma requests_writes:
  "exists_child (friendRequests (remove_request a b s) x) y
     = (\<not> (x = a \<and> y = b) \<and> exists_child (friendRequests s x) y)"
  "friendRequests (set_friend a b ed s) = friendRequests s"
  "friendRequests (addNotification e u ty src msg c p s) = friendRequests s"
  "map_of (friendRequests (set_request a b r s) a) b = Some r"
  by (auto simp: remove_request_def set_friend_def addNotification_def set_request_def
      exists_child_def delete_conv' update_conv')

lemma notified_addNotification:
  "notified (addNotification e u ty src msg c p s) u (notifKey e) ty src"
  by (simp add: notified_def addNotification_def update_conv')

text \<open>
  Claim C4, as the code has it. \<open>acceptFriendRequest\<close> never looks the request up and
  never fails with \<open>NotFound\<close>. With nobody signed in it fails with \<open>Unauthenticated\<close>
  and leaves the store as it was. For a signed-in owner whose profile is stored it
  succeeds, whether or not a request from \<open>src\<close> is pending: afterwards no request from
  \<open>src\<close> to the owner is stored, both mirrored edges exist, and a
  \<^verbatim>\<open>friend_request_accepted\<close> notification from the owner is queued for \<open>src\<close>.
\<close>

theorem acceptFriendRequest_effects:
  "(currentUser e = None \<longrightarrow> acceptFriendRequest e src s = (Inl Unauthenticated, s))
   \<and> (currentUser e = Some owner \<and> getUserProfile s owner \<noteq> None \<longrightarrow>
        (\<exists>s'. acceptFriendRequest e src s = (Inr True, s')
             \<and> \<not> exists_child (friendRequests s' owner) src
             \<and> areFriends s' owner src \<and> areFriends s' src owner
             \<and> notified s' src (notifKey e) ''friend_request_accepted'' owner))
   \<and> fst (acceptFriendRequest e src s) \<noteq> Inl NotFound"
proof (intro conjI impI)
  assume "currentUser e = None"
  then show "acceptFriendRequest e src s = (Inl Unauthenticated, s)"
    by (simp add: acceptFriendRequest_def)
next
  assume a: "currentUser e = Some owner \<and> getUserProfile s owner \<noteq> None"
  then obtain p where p: "getUserProfile s owner = Some p" by auto
  let ?ed = "\<lparr>addedAt = serverTime e, status = ''accepted''\<rparr>"
  let ?s3 = "set_friend src owner ?ed (set_friend owner src ?ed (remove_request owner src s))"
  let ?s' = "addNotification e src ''friend_request_accepted'' owner
               (js_str (displayName p) @ '' accepted your friend request'') None None ?s3"
  have run: "acceptFriendRequest e src s = (Inr True, ?s')"
    using a p by (simp add: acceptFriendRequest_def Let_def)
  have "\<not> exists_child (friendRequests ?s' owner) src"
    by (simp add: requests_writes)
  moreover have "areFriends ?s' owner src \<and> areFriends ?s' src owner"
    by (simp add: areFriends_writes)
  moreover have "notified ?s' src (notifKey e) ''friend_request_accepted'' owner"
    by (rule notified_addNotification)
  ultimately show "\<exists>s'. acceptFriendRequest e src s = (Inr True, s')
             \<and> \<not> exists_child (friendRequests s' owner) src
             \<and> areFriends s' owner src \<and> areFriends s' src owner
             \<and> notified s' src (notifKey e) ''friend_request_accepted'' owner"
    using run by blast
next
  show "fst (acceptFriendRequest e src s) \<noteq> Inl NotFound"
    by (simp add: acceptFriendRequest_def Let_def split: option.splits)
qed

text \<open>
  The claim as it is stated fails where no request is pending: Bob accepts a request Alice
  never sent; the call succeeds, both edges are written and Alice is notified.
\<close>

theorem acceptFriendRequest_absent_counterexample:
  "\<not> exists_child (friendRequests three_users ''u2'') ''u1''
   \<and> fst (acceptFriendRequest (session ''u2'' ''-A1'' 40) ''u1'' three_users) = Inr True
   \<and> areFriends (snd (acceptFriendRequest (session ''u2'' ''-A1'' 40) ''u1'' three_users)) ''u2'' ''u1''
   \<and> areFriends (snd (acceptFriendRequest (session ''u2'' ''-A1'' 40) ''u1'' three_users)) ''u1'' ''u2''
   \<and> notified (snd (acceptFriendRequest (session ''u2'' ''-A1'' 40) ''u1'' three_users))
       ''u1'' ''-A1n'' ''friend_request_accepted'' ''u2''"
  by code_simp

theorem acceptFriendRequest_effects_witness:
  "currentUser (session ''u2'' ''-A1'' 40) = Some ''u2''
   \<and> getUserProfile alice_asked_bob ''u2'' \<noteq> None
   \<and> exists_child (friendRequests alice_asked_bob ''u2'') ''u1''
   \<and> (\<exists>s'. acceptFriendRequest (session ''u2'' ''-A1'' 40) ''u1'' alice_asked_bob = (Inr True, s')
          \<and> \<not> exists_child (friendRequests s' ''u2'') ''u1''
          \<and> areFriends s' ''u2'' ''u1'' \<and> areFriends s' ''u1'' ''u2''
          \<and> notified s' ''u1'' ''-A1n'' ''friend_request_accepted'' ''u2'')
   \<and> acceptFriendRequest \<lparr>currentUser = None, pushKey = ''-A1'', notifKey = ''-A1n'',
        serverTime = 40, clientTime = 40\<rparr> ''u1'' alice_asked_bob = (Inl Unauthenticated, alice_asked_bob)"
proof -
  have cur: "currentUser (session ''u2'' ''-A1'' 40) = Some ''u2''"
    by (simp add: session_def)
  have nk: "notifKey (session ''u2'' ''-A1'' 40) = ''-A1n''"
    by (simp add: session_def)
  have prof: "getUserProfile alice_asked_bob ''u2'' \<noteq> None" by code_simp
  have pending: "exists_child (friendRequests alice_asked_bob ''u2'') ''u1''" by code_simp
  note signed_in = acceptFriendRequest_effects
    [of "session ''u2'' ''-A1'' 40" "''u1''" alice_asked_bob "''u2''"]
  note signed_out = acceptFriendRequest_effects
    [of "\<lparr>currentUser = None, pushKey = ''-A1'', notifKey = ''-A1n'',
          serverTime = 40, clientTime = 40\<rparr>" "''u1''" alice_asked_bob "''u2''"]
  show ?thesis using signed_in signed_out cur prof pending by (simp add: nk)
qed

section \<open>Sending a friend request\<close>











section \<open>Sending a message\<close>

lemma userChats_update_user_chat:
  "userChats (update_user_chat u c f s) u' c' =
     (if u' = u \<and> c' = c
      then Some (f (case userChats s u c of None \<Rightarrow> no_user_chat | Some uc \<Rightarrow> uc))
      else userChats s u' c')"
  by (simp add: update_user_chat_def)

lemma getUnreadCount_update_user_chat:
  "getUnreadCount (update_user_chat u c f s) u' c' =
     (if u' = u \<and> c' = c
      then or0 (unreadCount (f (case userChats s u c of None \<Rightarrow> no_user_chat | Some uc \<Rightarrow> uc)))
      else getUnreadCount s u' c')"
  by (simp add: getUnreadCount_def userChats_update_user_chat)

lemma getUnreadCount_other_writes [simp]:
  "getUnreadCount (set_message c k m s) u c' = getUnreadCount s u c'"
  "getUnreadCount (addNotification e v ty src msg ch p s) u c' = getUnreadCount s u c'"
  "getUnreadCount (s\<lparr>chats := x\<rparr>) u c' = getUnreadCount s u c'"
  by (simp_all add: getUnreadCount_def set_message_def addNotification_def)

lemma unread_of_missing:
  "or0 (unreadCount (case userChats s u c of None \<Rightarrow> no_user_chat | Some uc \<Rightarrow> uc))
     = getUnreadCount s u c"
  by (simp add: getUnreadCount_def no_user_chat_def or0_def split: option.splits)

lemma messages_other_writes [simp]:
  "messages (update_user_chat u c f s) = messages s"
  "messages (addNotification e v ty src msg ch p s) = messages s"
  by (simp_all add: update_user_chat_def addNotification_def)

lemma users_chat_writes [simp]:
  "getUserProfile (update_user_chat u c f s) v = getUserProfile s v"
  "getUserProfile (set_message c k m s) v = getUserProfile s v"
  "getUserProfile (s\<lparr>chats := x\<rparr>) v = getUserProfile s v"
  by (simp_all add: getUserProfile_def update_user_chat_def set_message_def)

lemma or0_simps [simp]: "or0 (Some n) = n" "or0 None = 0"
  by (simp_all add: or0_def)

lemma messages_set_message:
  "map_of (messages (set_message c k m s) c) k = Some m"
  by (simp add: set_message_def update_conv')

lemma messages_chats_update [simp]: "messages (s\<lparr>chats := x\<rparr>) = messages s"
  by simp

lemma sendMessage_stored:
  assumes "currentUser e = Some sender" and "areFriends s sender recipient"
  shows "map_of (messages (snd (sendMessage e recipient body s))
                   (generateChatId sender recipient)) (pushKey e)
           = Some \<lparr>senderId = sender, recipientId = recipient, m_text = body,
                   timestamp = Some (serverTime e), read = False\<rparr>"
  using assms
  by (simp add: sendMessage_def Let_def messages_set_message split: option.splits)

lemma sendMessage_counts:
  assumes "currentUser e = Some sender" and "areFriends s sender recipient"
  shows "getUnreadCount (snd (sendMessage e recipient body s)) u c =
           (if u = recipient \<and> c = generateChatId sender recipient
            then getUnreadCount s recipient (generateChatId sender recipient) + 1
            else getUnreadCount s u c)"
  using assms
  by (simp add: sendMessage_def Let_def getUnreadCount_update_user_chat unread_of_missing
      split: option.splits)

text \<open>
  Claim C3, as the code has it. For a signed-in sender, \<open>sendMessage\<close> fails with
  \<open>NotFriends\<close> whenever no edge \<^verbatim>\<open>friends/{sender}/{recipient}\<close> exists, and then leaves the
  store as it was. It makes no check of the text and never fails with \<open>EmptyMessage\<close>:
  whenever the edge exists the message is appended to the thread, with the text as given.
\<close>

theorem sendMessage_guards:
  assumes "currentUser e = Some sender"
  shows "(\<not> areFriends s sender recipient \<longrightarrow>
            sendMessage e recipient body s = (Inl NotFriends, s))
       \<and> (areFriends s sender recipient \<longrightarrow>
            map_of (messages (snd (sendMessage e recipient body s))
                      (generateChatId sender recipient)) (pushKey e)
              = Some \<lparr>senderId = sender, recipientId = recipient, m_text = body,
                      timestamp = Some (serverTime e), read = False\<rparr>)
       \<and> fst (sendMessage e recipient body s) \<noteq> Inl EmptyMessage"
proof (intro conjI impI)
  assume "\<not> areFriends s sender recipient"
  with assms show "sendMessage e recipient body s = (Inl NotFriends, s)"
    by (simp add: sendMessage_def)
next
  assume "areFriends s sender recipient"
  with assms
  show "map_of (messages (snd (sendMessage e recipient body s))
                 (generateChatId sender recipient)) (pushKey e)
          = Some \<lparr>senderId = sender, recipientId = recipient, m_text = body,
                  timestamp = Some (serverTime e), read = False\<rparr>"
    by (rule sendMessage_stored)
next
  show "fst (sendMessage e recipient body s) \<noteq> Inl EmptyMessage"
    by (simp add: sendMessage_def Let_def split: option.splits)
qed

theorem sendMessage_guards_witness:
  "currentUser (session ''u1'' ''-M1'' 50) = Some ''u1''
   \<and> \<not> areFriends three_users ''u1'' ''u2''
   \<and> sendMessage (session ''u1'' ''-M1'' 50) ''u2'' ''hi'' three_users = (Inl NotFriends, three_users)
   \<and> areFriends alice_bob_friends ''u1'' ''u2''
   \<and> map_of (messages (snd (sendMessage (session ''u1'' ''-M1'' 50) ''u2'' ''hi'' alice_bob_friends))
               (generateChatId ''u1'' ''u2'')) ''-M1''
       = Some \<lparr>senderId = ''u1'', recipientId = ''u2'', m_text = ''hi'',
               timestamp = Some 50, read = False\<rparr>"
proof -
  have cur: "currentUser (session ''u1'' ''-M1'' 50) = Some ''u1''"
    by (simp add: session_def)
  have no: "\<not> areFriends three_users ''u1'' ''u2''" by code_simp
  have yes: "areFriends alice_bob_friends ''u1'' ''u2''" by code_simp
  from sendMessage_guards [OF cur, of three_users "''u2''" "''hi''"]
    sendMessage_guards [OF cur, of alice_bob_friends "''u2''" "''hi''"]
  show ?thesis using cur no yes by (simp add: session_def)
qed

text \<open>
  The claim as it is stated fails on a blank text: between friends a text of two spaces
  is sent, the call succeeds and the blank message is in the thread.
\<close>

theorem sendMessage_blank_counterexample:
  "trim ''  '' = []
   \<and> areFriends alice_bob_friends ''u1'' ''u2''
   \<and> fst (sendMessage (session ''u1'' ''-M1'' 50) ''u2'' ''  '' alice_bob_friends) = Inr ''-M1''
   \<and> map (m_text \<circ> snd)
        (messages (snd (sendMessage (session ''u1'' ''-M1'' 50) ''u2'' ''  '' alice_bob_friends))
           (generateChatId ''u1'' ''u2'')) = [''  '']"
  by code_simp

text \<open>
  Claim C6, as the code has it. After a successful \<open>sendMessage\<close> the unread count of the
  recipient's summary of the thread is one more than before; the unread count of the
  sender's summary is what it was, provided sender and recipient are two users.
\<close>

theorem sendMessage_unread:
  assumes "sendMessage e recipient body s = (Inr k, s')" and "currentUser e = Some sender"
  shows "getUnreadCount s' recipient (generateChatId sender recipient)
           = getUnreadCount s recipient (generateChatId sender recipient) + 1
       \<and> (sender \<noteq> recipient \<longrightarrow>
            getUnreadCount s' sender (generateChatId sender recipient)
              = getUnreadCount s sender (generateChatId sender recipient))"
proof -
  from assms have fr: "areFriends s sender recipient"
    by (auto simp: sendMessage_def split: if_splits)
  from assms have s': "s' = snd (sendMessage e recipient body s)" by simp
  show ?thesis
    unfolding s' by (simp add: sendMessage_counts [OF assms(2) fr])
qed

lemma message_to_bob:
  "sendMessage (session ''u1'' ''-M1'' 50) ''u2'' ''hi'' alice_bob_friends
     = (Inr ''-M1'', snd (sendMessage (session ''u1'' ''-M1'' 50) ''u2'' ''hi'' alice_bob_friends))"
proof -
  have "fst (sendMessage (session ''u1'' ''-M1'' 50) ''u2'' ''hi'' alice_bob_friends) = Inr ''-M1''"
    by code_simp
  then show ?thesis by (simp add: prod_eq_iff)
qed

theorem sendMessage_unread_witness:
  "sendMessage (session ''u1'' ''-M1'' 50) ''u2'' ''hi'' alice_bob_friends
     = (Inr ''-M1'', snd (sendMessage (session ''u1'' ''-M1'' 50) ''u2'' ''hi'' alice_bob_friends))
   \<and> currentUser (session ''u1'' ''-M1'' 50) = Some ''u1''
   \<and> ''u1'' \<noteq> ''u2''
   \<and> getUnreadCount alice_bob_friends ''u2'' (generateChatId ''u1'' ''u2'') = 0
   \<and> getUnreadCount (snd (sendMessage (session ''u1'' ''-M1'' 50) ''u2'' ''hi'' alice_bob_friends))
        ''u2'' (generateChatId ''u1'' ''u2'') = 1
   \<and> getUnreadCount (snd (sendMessage (session ''u1'' ''-M1'' 50) ''u2'' ''hi'' alice_bob_friends))
        ''u1'' (generateChatId ''u1'' ''u2'')
       = getUnreadCount alice_bob_friends ''u1'' (generateChatId ''u1'' ''u2'')"
proof -
  have cur: "currentUser (session ''u1'' ''-M1'' 50) = Some ''u1''"
    by (simp add: session_def)
  have zero: "getUnreadCount alice_bob_friends ''u2'' (generateChatId ''u1'' ''u2'') = 0"
    by code_simp
  from sendMessage_unread [OF message_to_bob cur]
  show ?thesis using message_to_bob cur zero by simp
qed

text \<open>
  The claim as it is stated fails when the sender is the recipient. Alice, holding an edge
  to herself, sends herself a message: the call succeeds and the unread count of the
  sender's summary goes from 0 to 1.
\<close>

theorem sendMessage_self_counterexample:
  "fst (sendMessage (session ''u1'' ''-M1'' 50) ''u1'' ''hi'' alice_own_friend) = Inr ''-M1''
   \<and> getUnreadCount alice_own_friend ''u1'' (generateChatId ''u1'' ''u1'') = 0
   \<and> getUnreadCount (snd (sendMessage (session ''u1'' ''-M1'' 50) ''u1'' ''hi'' alice_own_friend))
        ''u1'' (generateChatId ''u1'' ''u1'') = 1"
  by code_simp

section \<open>Marking a thread as read\<close>

lemma update_user_chat_triv:
  assumes "userChats s u c = Some uc" and "f uc = uc"
  shows "update_user_chat u c f s = s"
proof -
  have "(userChats s u)(c \<mapsto> uc) = userChats s u"
    using assms(1) by (rule map_upd_triv)
  then have "(userChats s)(u := (userChats s u)(c \<mapsto> uc)) = userChats s"
    by simp
  with assms show ?thesis by (simp add: update_user_chat_def)
qed

lemma no_unread_updates:
  assumes "\<forall>(k, m) \<in> set msgs. recipientId m = reader \<longrightarrow> read m"
  shows "map fst (filter (\<lambda>(k, m). recipientId m = reader \<and> \<not> read m) (children msgs)) = []"
  using assms by (auto simp: filter_empty_conv)

text \<open>A store in which the reader's summary counts 0 and nothing is unread is left as it is.\<close>

lemma markMessagesAsRead_fixpoint:
  assumes "currentUser e = Some reader"
    and "userChats s reader (generateChatId reader other) = Some uc"
    and "unreadCount uc = Some 0"
    and "\<forall>(k, m) \<in> set (messages s (generateChatId reader other)).
           recipientId m = reader \<longrightarrow> read m"
  shows "markMessagesAsRead e other s = s"
proof -
  let ?c = "generateChatId reader other"
  have "uc\<lparr>unreadCount := Some 0\<rparr> = uc" using assms(3) by simp
  with assms(2) have same: "update_user_chat reader ?c (\<lambda>uc. uc\<lparr>unreadCount := Some 0\<rparr>) s = s"
    by (rule update_user_chat_triv)
  from assms(4) have "map fst (filter (\<lambda>(k, m). recipientId m = reader \<and> \<not> read m)
                        (children (messages s ?c))) = []"
    by (rule no_unread_updates)
  with assms(1) same show ?thesis
    by (simp add: markMessagesAsRead_def Let_def)
qed

text \<open>What one call does to the thread and to the summary.\<close>

lemma marked_all_read:
  assumes "updates = map fst (filter (\<lambda>(k, m). recipientId m = reader \<and> \<not> read m) (children msgs))"
  shows "\<forall>(k, m) \<in> set (map (\<lambda>(k, m). if k \<in> set updates then (k, m\<lparr>read := True\<rparr>) else (k, m)) msgs).
           recipientId m = reader \<longrightarrow> read m"
  unfolding assms by (force split: if_splits)

lemma marked_flags_only:
  "map (\<lambda>(k, m). (k, m\<lparr>read := True\<rparr>))
     (map (\<lambda>(k, m). if k \<in> K then (k, m\<lparr>read := True\<rparr>) else (k, m)) msgs)
   = map (\<lambda>(k, m). (k, m\<lparr>read := True\<rparr>)) msgs"
  by (induction msgs) auto

lemma markMessagesAsRead_summary:
  assumes "currentUser e = Some reader"
  shows "\<exists>uc. userChats (markMessagesAsRead e other s) reader (generateChatId reader other) = Some uc
              \<and> unreadCount uc = Some 0"
  using assms
  by (simp add: markMessagesAsRead_def Let_def userChats_update_user_chat update_user_chat_def)

lemma markMessagesAsRead_thread:
  assumes "currentUser e = Some reader"
  shows "(\<forall>(k, m) \<in> set (messages (markMessagesAsRead e other s) (generateChatId reader other)).
            recipientId m = reader \<longrightarrow> read m)
       \<and> map (\<lambda>(k, m). (k, m\<lparr>read := True\<rparr>))
              (messages (markMessagesAsRead e other s) (generateChatId reader other))
         = map (\<lambda>(k, m). (k, m\<lparr>read := True\<rparr>)) (messages s (generateChatId reader other))"
proof -
  let ?c = "generateChatId reader other"
  let ?msgs = "messages s ?c"
  let ?updates = "map fst (filter (\<lambda>(k, m). recipientId m = reader \<and> \<not> read m) (children ?msgs))"
  let ?marked = "map (\<lambda>(k, m). if k \<in> set ?updates then (k, m\<lparr>read := True\<rparr>) else (k, m)) ?msgs"
  show ?thesis
  proof (cases "?updates = []")
    case True
    then have none: "\<forall>(k, m) \<in> set ?msgs. recipientId m = reader \<longrightarrow> read m"
      by (auto simp: filter_empty_conv)
    from True assms
    have "messages (markMessagesAsRead e other s) ?c = ?msgs"
      by (simp add: markMessagesAsRead_def Let_def)
    with none show ?thesis by simp
  next
    case False
    then have "?msgs \<noteq> []" by (auto simp: children_def)
    with False assms
    have "messages (markMessagesAsRead e other s) ?c = ?marked"
      by (simp add: markMessagesAsRead_def Let_def)
    then show ?thesis
      using marked_all_read [of ?updates reader ?msgs] marked_flags_only [of "set ?updates" ?msgs]
      by simp
  qed
qed

text \<open>
  Claim C7. For a signed-in reader, \<open>markMessagesAsRead\<close> leaves the unread count of the
  reader's summary of the thread at 0 and every message of the thread addressed to the
  reader read, changing nothing of the thread but read flags; a second call changes
  nothing, and the unread count is 0 after it as after the first.
\<close>

theorem markMessagesAsRead_idempotent:
  assumes "currentUser e = Some reader"
  shows "getUnreadCount (markMessagesAsRead e other s) reader (generateChatId reader other) = 0
       \<and> (\<forall>(k, m) \<in> set (messages (markMessagesAsRead e other s) (generateChatId reader other)).
             recipientId m = reader \<longrightarrow> read m)
       \<and> map (\<lambda>(k, m). (k, m\<lparr>read := True\<rparr>))
              (messages (markMessagesAsRead e other s) (generateChatId reader other))
           = map (\<lambda>(k, m). (k, m\<lparr>read := True\<rparr>)) (messages s (generateChatId reader other))
       \<and> markMessagesAsRead e other (markMessagesAsRead e other s) = markMessagesAsRead e other s
       \<and> getUnreadCount (markMessagesAsRead e other (markMessagesAsRead e other s)) reader
            (generateChatId reader other) = 0"
proof -
  let ?c = "generateChatId reader other"
  let ?s1 = "markMessagesAsRead e other s"
  from markMessagesAsRead_summary [OF assms, of other s]
  obtain uc where uc: "userChats ?s1 reader ?c = Some uc" "unreadCount uc = Some 0" by blast
  then have zero: "getUnreadCount ?s1 reader ?c = 0"
    by (simp add: getUnreadCount_def)
  note thread = markMessagesAsRead_thread [OF assms, of other s]
  from thread have allread: "\<forall>(k, m) \<in> set (messages ?s1 ?c). recipientId m = reader \<longrightarrow> read m"
    by blast
  have again: "markMessagesAsRead e other ?s1 = ?s1"
    using assms uc allread by (rule markMessagesAsRead_fixpoint)
  show ?thesis using zero thread again by simp
qed

theorem markMessagesAsRead_idempotent_witness:
  "currentUser (session ''u2'' ''-X1'' 60) = Some ''u2''
   \<and> getUnreadCount bob_has_unread ''u2'' (generateChatId ''u2'' ''u1'') = 1
   \<and> map (read \<circ> snd) (messages bob_has_unread (generateChatId ''u2'' ''u1'')) = [False]
   \<and> getUnreadCount (markMessagesAsRead (session ''u2'' ''-X1'' 60) ''u1'' bob_has_unread)
        ''u2'' (generateChatId ''u2'' ''u1'') = 0
   \<and> map (read \<circ> snd)
        (messages (markMessagesAsRead (session ''u2'' ''-X1'' 60) ''u1'' bob_has_unread)
           (generateChatId ''u2'' ''u1'')) = [True]
   \<and> markMessagesAsRead (session ''u2'' ''-X1'' 60) ''u1''
        (markMessagesAsRead (session ''u2'' ''-X1'' 60) ''u1'' bob_has_unread)
       = markMessagesAsRead (session ''u2'' ''-X1'' 60) ''u1'' bob_has_unread
   \<and> getUnreadCount
        (markMessagesAsRead (session ''u2'' ''-X1'' 60) ''u1''
           (markMessagesAsRead (session ''u2'' ''-X1'' 60) ''u1'' bob_has_unread))
        ''u2'' (generateChatId ''u2'' ''u1'') = 0"
proof -
  have cur: "currentUser (session ''u2'' ''-X1'' 60) = Some ''u2''"
    by (simp add: session_def)
  have before: "getUnreadCount bob_has_unread ''u2'' (generateChatId ''u2'' ''u1'') = 1"
    by code_simp
  have unread: "map (read \<circ> snd) (messages bob_has_unread (generateChatId ''u2'' ''u1'')) = [False]"
    by code_simp
  have marked: "map (read \<circ> snd)
        (messages (markMessagesAsRead (session ''u2'' ''-X1'' 60) ''u1'' bob_has_unread)
           (generateChatId ''u2'' ''u1'')) = [True]"
    by code_simp
  from markMessagesAsRead_idempotent [OF cur, of "''u1''" bob_has_unread]
  show ?thesis using cur before unread marked by simp
qed

section \<open>The order of a thread\<close>

lemma insort_time_key:
  assumes "by_time_then_key ms" and "\<forall>m \<in> set ms. fst x \<le> fst m"
  shows "by_time_then_key (insort_key msg_time x ms)"
  using assms
proof (induction ms)
  case Nil
  then show ?case by (simp add: by_time_then_key_def)
next
  case (Cons m ms)
  show ?case
  proof (cases "msg_time x \<le> msg_time m")
    case True
    have "\<forall>b \<in> set (m # ms). msg_time x < msg_time b
             \<or> (msg_time x = msg_time b \<and> fst x \<le> fst b)"
    proof
      fix b assume b: "b \<in> set (m # ms)"
      with Cons.prems(1) have "msg_time m \<le> msg_time b"
        by (auto simp: by_time_then_key_def)
      with True b Cons.prems(2) show "msg_time x < msg_time b
             \<or> (msg_time x = msg_time b \<and> fst x \<le> fst b)"
        by force
    qed
    with True Cons.prems(1) show ?thesis
      by (simp add: by_time_then_key_def)
  next
    case False
    from Cons.prems have "by_time_then_key (insort_key msg_time x ms)"
      by (intro Cons.IH) (simp_all add: by_time_then_key_def)
    with False Cons.prems(1) show ?thesis
      by (auto simp: by_time_then_key_def set_insort_key)
  qed
qed

lemma sort_time_key:
  "sorted (map fst ms) \<Longrightarrow> by_time_then_key (sort_key msg_time ms)"
proof (induction ms)
  case Nil
  then show ?case by (simp add: by_time_then_key_def)
next
  case (Cons m ms)
  then have "by_time_then_key (sort_key msg_time ms)" by simp
  moreover from Cons.prems have "\<forall>b \<in> set (sort_key msg_time ms). fst m \<le> fst b"
    by auto
  ultimately show ?case by (simp add: insort_time_key)
qed

lemma sort_by_timestamp_time_key:
  "sorted (map fst ms) \<Longrightarrow> by_time_then_key (sort_by_timestamp ms)"
  using sort_time_key [of ms] by (simp add: sort_by_timestamp_def msg_time_def [abs_def])

lemma limitToLast_keys_sorted:
  "limitToLast limit (children ms) = Some snapshot \<Longrightarrow> sorted (map fst snapshot)"
  by (auto simp: limitToLast_def children_def drop_map [symmetric] sorted_wrt_drop
      split: if_splits)

lemma time_key_sorted: "by_time_then_key ms \<Longrightarrow> sorted (map msg_time ms)"
  unfolding by_time_then_key_def sorted_map
  by (rule sorted_wrt_mono_rel) auto

text \<open>
  Claim C8, as the code has it. The list of \<open>getChatMessages\<close>, and every list
  \<open>listenToChatMessages\<close> hands to its callback, is in ascending order of creation time
  (a missing timestamp counting as 0), and messages of equal time are in ascending order of
  their push keys: the order of the snapshot, which the stable sort keeps. No sequence
  number is assigned at write time.
\<close>

theorem chat_messages_order:
  "by_time_then_key (getChatMessages e other limit s)
   \<and> sorted (map msg_time (getChatMessages e other limit s))
   \<and> (\<forall>ms. listenToChatMessages e other limit s = Some ms \<longrightarrow>
         by_time_then_key ms \<and> sorted (map msg_time ms))"
proof -
  have snap: "by_time_then_key (if snapshot = [] then [] else sort_by_timestamp snapshot)"
    if "limitToLast limit (children ms) = Some snapshot" for ms snapshot
    using limitToLast_keys_sorted [OF that]
    by (simp add: sort_by_timestamp_time_key) (simp add: by_time_then_key_def)
  have get: "by_time_then_key (getChatMessages e other limit s)"
  proof (cases "currentUser e")
    case None
    then show ?thesis by (simp add: getChatMessages_def by_time_then_key_def)
  next
    case (Some cur)
    show ?thesis
    proof (cases "limitToLast limit (children (messages s (generateChatId cur other)))")
      case None
      with Some show ?thesis by (simp add: getChatMessages_def by_time_then_key_def)
    next
      case (Some snapshot)
      with \<open>currentUser e = Some cur\<close> snap [OF Some] show ?thesis
        by (simp add: getChatMessages_def)
    qed
  qed
  have listen: "by_time_then_key ms" if "listenToChatMessages e other limit s = Some ms" for ms
  proof -
    from that obtain cur snapshot where
      "limitToLast limit (children (messages s (generateChatId cur other))) = Some snapshot"
      and "ms = (if snapshot = [] then [] else sort_by_timestamp snapshot)"
      by (auto simp: listenToChatMessages_def split: option.splits)
    with snap show ?thesis by blast
  qed
  from get listen show ?thesis by (auto intro: time_key_sorted)
qed

theorem chat_messages_order_witness:
  "listenToChatMessages (session ''u1'' ''-K1'' 70) ''u2'' 50 crossed_keys
     = Some (getChatMessages (session ''u1'' ''-K1'' 70) ''u2'' 50 crossed_keys)
   \<and> map (\<lambda>m. (fst m, m_text (snd m), msg_time m))
        (getChatMessages (session ''u1'' ''-K1'' 70) ''u2'' 50 crossed_keys)
       = [(''-Ma'', ''second'', 50), (''-Mb'', ''first'', 50)]
   \<and> by_time_then_key (getChatMessages (session ''u1'' ''-K1'' 70) ''u2'' 50 crossed_keys)
   \<and> sorted (map msg_time (getChatMessages (session ''u1'' ''-K1'' 70) ''u2'' 50 crossed_keys))"
proof -
  have l: "listenToChatMessages (session ''u1'' ''-K1'' 70) ''u2'' 50 crossed_keys
     = Some (getChatMessages (session ''u1'' ''-K1'' 70) ''u2'' 50 crossed_keys)"
    by (simp add: listenToChatMessages_def getChatMessages_def session_def limitToLast_def)
  have v: "map (\<lambda>m. (fst m, m_text (snd m), msg_time m))
        (getChatMessages (session ''u1'' ''-K1'' 70) ''u2'' 50 crossed_keys)
       = [(''-Ma'', ''second'', 50), (''-Mb'', ''first'', 50)]"
    by code_simp
  from chat_messages_order [of "session ''u1'' ''-K1'' 70" "''u2''" 50 crossed_keys]
  show ?thesis using l v by blast
qed

text \<open>
  The claim as it is stated breaks ties by the order of the writes. In \<open>crossed_keys\<close> the
  two messages have the same timestamp; the one written first is returned second.
\<close>

theorem chat_messages_insertion_counterexample:
  "map fst (messages crossed_keys (generateChatId ''u1'' ''u2'')) = [''-Mb'', ''-Ma'']
   \<and> map (\<lambda>m. (fst m, msg_time m))
        (getChatMessages (session ''u1'' ''-K1'' 70) ''u2'' 50 crossed_keys)
       = [(''-Ma'', 50), (''-Mb'', 50)]
   \<and> \<not> by_time_then_insertion (messages crossed_keys (generateChatId ''u1'' ''u2''))
         (getChatMessages (session ''u1'' ''-K1'' 70) ''u2'' 50 crossed_keys)"
  by code_simp

section \<open>The counters of a post\<close>

lemma liked_post_exists: "likesCount p \<noteq> None \<Longrightarrow> p \<noteq> no_post"
  by (auto simp: no_post_def)

lemma get_post_addNotification [simp]:
  "get_post (addNotification e u ty src msg c p s) pid = get_post s pid"
  by (simp add: get_post_def addNotification_def)

lemma post_counts_ok_cong:
  "get_post s' pid = get_post s pid \<Longrightarrow> post_counts_ok s' pid = post_counts_ok s pid"
  by (simp add: post_counts_ok_def)

lemma post_counts_okD:
  assumes "post_counts_ok s pid"
  shows "\<exists>p. get_post s pid = Some p \<and> posts s pid = Some p
           \<and> likesCount p = Some (int (card (set (likes p))))
           \<and> commentsCount p = Some (int (length (comments p)))"
proof (cases "get_post s pid")
  case None
  with assms show ?thesis by (simp add: post_counts_ok_def)
next
  case (Some p)
  then have "posts s pid = Some p"
    by (cases "posts s pid") (simp_all add: get_post_def split: if_splits)
  with Some assms show ?thesis by (simp add: post_counts_ok_def)
qed

lemma card_unliked:
  assumes "u \<in> set xs"
  shows "int (card (set xs) - Suc 0) = int (card (set xs)) - 1"
proof -
  from assms have "0 < card (set xs)" by (auto simp: card_gt_0_iff)
  then show ?thesis by (simp add: of_nat_diff)
qed

lemma card_liked:
  "u \<notin> set xs \<Longrightarrow> int (card (set (xs @ [u]))) = int (card (set xs)) + 1"
  by simp

lemma length_update_fresh:
  "k \<notin> fst ` set xs \<Longrightarrow> length (AList.update k v xs) = Suc (length xs)"
  by (induction xs) auto

lemma togglePostLike_other:
  "pid' \<noteq> pid \<Longrightarrow> get_post (snd (togglePostLike e pid' s)) pid = get_post s pid"
  by (simp add: togglePostLike_def Let_def get_post_update_post split: option.splits)

lemma addComment_other:
  "pid' \<noteq> pid \<Longrightarrow> get_post (snd (addComment e pid' body s)) pid = get_post s pid"
  by (simp add: addComment_def Let_def get_post_update_post split: option.splits)

lemma togglePostLike_keeps_counts:
  assumes "post_counts_ok s pid"
  shows "post_counts_ok (snd (togglePostLike e pid' s)) pid"
proof (cases "pid' = pid")
  case False
  with assms show ?thesis
    by (simp add: post_counts_ok_cong [OF togglePostLike_other])
next
  case True
  from post_counts_okD [OF assms]
  obtain p where p: "get_post s pid = Some p" "posts s pid = Some p"
    "likesCount p = Some (int (card (set (likes p))))"
    "commentsCount p = Some (int (length (comments p)))"
    by blast
  show ?thesis
  proof (cases "currentUser e")
    case None
    with assms show ?thesis by (simp add: togglePostLike_def)
  next
    case (Some cur)
    show ?thesis
    proof (cases "cur \<in> set (likes p)")
      case liked: True
      with Some True p show ?thesis
        by (simp add: togglePostLike_def Let_def post_counts_ok_def get_post_update_post
            liked_post_exists card_unliked)
    next
      case unliked: False
      with Some True p show ?thesis
        by (simp add: togglePostLike_def Let_def post_counts_ok_def get_post_update_post
            liked_post_exists split: option.splits)
    qed
  qed
qed

lemma addComment_keeps_counts:
  assumes "post_counts_ok s pid" and "push_fresh (AddComment e pid' body) s"
  shows "post_counts_ok (snd (addComment e pid' body s)) pid"
proof (cases "pid' = pid")
  case False
  with assms show ?thesis
    by (simp add: post_counts_ok_cong [OF addComment_other])
next
  case True
  from post_counts_okD [OF assms(1)]
  obtain p where p: "get_post s pid = Some p" "posts s pid = Some p"
    "likesCount p = Some (int (card (set (likes p))))"
    "commentsCount p = Some (int (length (comments p)))"
    by blast
  from assms(2) True p have fresh: "pushKey e \<notin> fst ` set (comments p)" by simp
  show ?thesis
  proof (cases "currentUser e")
    case None
    with assms show ?thesis by (simp add: addComment_def)
  next
    case (Some cur)
    with True p fresh assms(1) show ?thesis
      by (simp add: addComment_def Let_def post_counts_ok_def get_post_update_post
          posts_update_post liked_post_exists length_update_fresh split: option.splits)
  qed
qed

lemma apply_feed_op_keeps_counts:
  "post_counts_ok s pid \<Longrightarrow> push_fresh x s \<Longrightarrow> post_counts_ok (apply_feed_op x s) pid"
  by (cases x) (simp_all add: togglePostLike_keeps_counts addComment_keeps_counts)

lemma createPost_counts:
  "createPost e body img s = (Inr k, s') \<Longrightarrow> post_counts_ok s' k"
  by (auto simp: createPost_def Let_def post_counts_ok_def get_post_def no_post_def
      split: option.splits if_splits)

text \<open>
  Claim C2. A post made by \<open>createPost\<close> has \<open>likesCount\<close> equal to the size of its like set
  and \<open>commentsCount\<close> equal to the length of its comment log; and from a store in which a
  post has these properties, they hold in the store after each call of every sequence
  of \<open>togglePostLike\<close> and \<open>addComment\<close> calls (on this post or on others, by any users),
  each call running to its end before the next starts.
\<close>

theorem post_counts_kept:
  "(createPost e body img s = (Inr k, s') \<longrightarrow> post_counts_ok s' k)
   \<and> (post_counts_ok s pid \<and> pushes_fresh ops s \<longrightarrow>
        (\<forall>s' \<in> set (run_feed_ops ops s). post_counts_ok s' pid))"
proof (intro conjI impI)
  assume "createPost e body img s = (Inr k, s')"
  then show "post_counts_ok s' k" by (rule createPost_counts)
next
  assume "post_counts_ok s pid \<and> pushes_fresh ops s"
  then show "\<forall>s' \<in> set (run_feed_ops ops s). post_counts_ok s' pid"
  proof (induction ops arbitrary: s)
    case Nil
    then show ?case by simp
  next
    case (Cons x xs)
    then have now: "post_counts_ok (apply_feed_op x s) pid"
      by (simp add: apply_feed_op_keeps_counts)
    moreover from Cons.prems have "pushes_fresh xs (apply_feed_op x s)" by simp
    ultimately have "\<forall>s' \<in> set (run_feed_ops xs (apply_feed_op x s)). post_counts_ok s' pid"
      by (intro Cons.IH) simp
    with now show ?case by simp
  qed
qed

lemma alice_posts:
  "createPost (session ''u1'' ''-P1'' 80) ''hello'' None three_users = (Inr ''-P1'', alice_posted)"
proof -
  have "fst (createPost (session ''u1'' ''-P1'' 80) ''hello'' None three_users) = Inr ''-P1''"
    by code_simp
  then show ?thesis by (simp add: prod_eq_iff alice_posted_def)
qed

theorem post_counts_kept_witness:
  "createPost (session ''u1'' ''-P1'' 80) ''hello'' None three_users = (Inr ''-P1'', alice_posted)
   \<and> post_counts_ok alice_posted ''-P1''
   \<and> pushes_fresh feed_ops alice_posted
   \<and> map (\<lambda>s. map_option (\<lambda>p. (likes p, likesCount p, map fst (comments p), commentsCount p))
                 (get_post s ''-P1''))
        (run_feed_ops feed_ops alice_posted)
       = [Some ([''u2''], Some 1, [], Some 0),
          Some ([''u2''], Some 1, [''-C1''], Some 1),
          Some ([], Some 0, [''-C1''], Some 1),
          Some ([''u1''], Some 1, [''-C1''], Some 1)]
   \<and> list_all (\<lambda>s. post_counts_ok s ''-P1'') (run_feed_ops feed_ops alice_posted)"
proof -
  note made = post_counts_kept
    [where e = "session ''u1'' ''-P1'' 80" and body = "''hello''" and img = None
       and s = three_users and k = "''-P1''" and s' = alice_posted]
  note kept = post_counts_kept
    [where s = alice_posted and pid = "''-P1''" and ops = feed_ops]
  have ok: "post_counts_ok alice_posted ''-P1''"
    using made alice_posts by blast
  have fresh: "pushes_fresh feed_ops alice_posted" by code_simp
  have vals: "map (\<lambda>s. map_option (\<lambda>p. (likes p, likesCount p, map fst (comments p), commentsCount p))
                 (get_post s ''-P1''))
        (run_feed_ops feed_ops alice_posted)
       = [Some ([''u2''], Some 1, [], Some 0),
          Some ([''u2''], Some 1, [''-C1''], Some 1),
          Some ([], Some 0, [''-C1''], Some 1),
          Some ([''u1''], Some 1, [''-C1''], Some 1)]"
    by code_simp
  have "list_all (\<lambda>s. post_counts_ok s ''-P1'') (run_feed_ops feed_ops alice_posted)"
    using kept ok fresh by (simp add: list_all_iff)
  with alice_posts ok fresh vals show ?thesis by blast
qed

end
